theory Spec2Isabelle
  imports Main "HOL-Library.Multiset"
begin

section \<open>Errors and results\<close>

text \<open>
  The exceptions that the modelled code of \<^verbatim>\<open>gokart/target.py\<close> can raise.
  \<open>Raised msg\<close> stands for an exception thrown by a caller-supplied function
  (a save function, a reconstruction function, a format processor).
\<close>

datatype error =
    ZeroDivisionError
  | ValueError
  | IndexError
  | FileNotFoundError
  | FileExistsError
  | NotADirectoryError
  | IsADirectoryError
  | TypeError
  | Raised string

type_synonym 'a result = "error + 'a"

section \<open>Strings, paths and the file system\<close>

text \<open>Python's \<^verbatim>\<open>str(i)\<close> for a non-negative integer: its decimal digits.\<close>

definition digit_char :: "nat \<Rightarrow> char" where
  "digit_char d = ''0123456789'' ! d"

function str_nat :: "nat \<Rightarrow> string" where
  "str_nat n = (if n < 10 then [digit_char n] else str_nat (n div 10) @ [digit_char (n mod 10)])"
  by pat_completeness auto
termination
  by (relation "measure id") auto

declare str_nat.simps [simp del]

text \<open>\<^verbatim>\<open>f'data_{i}.pkl'\<close>, the name of the \<open>i\<close>-th fragment file.\<close>

definition fragment_name :: "nat \<Rightarrow> string" where
  "fragment_name i = ''data_'' @ str_nat i @ ''.pkl''"

text \<open>
  \<^verbatim>\<open>fnmatch(name, 'data_*.pkl')\<close>: the name starts with \<^verbatim>\<open>data_\<close>, ends with
  \<^verbatim>\<open>.pkl\<close>, and the two do not overlap.
\<close>

definition fnmatch_data_pkl :: "string \<Rightarrow> bool" where
  "fnmatch_data_pkl name \<longleftrightarrow>
     9 \<le> length name \<and> take 5 name = ''data_'' \<and> drop (length name - 4) name = ''.pkl''"

text \<open>
  \<^verbatim>\<open>os.path.dirname\<close> (POSIX): everything up to the last slash, with trailing
  slashes stripped unless the head consists of slashes only.
\<close>

definition rstrip_sep :: "string \<Rightarrow> string" where
  "rstrip_sep s = rev (dropWhile (\<lambda>c. c = CHR ''/'') (rev s))"

definition dirname :: "string \<Rightarrow> string" where
  "dirname p =
     (let head = rev (dropWhile (\<lambda>c. c \<noteq> CHR ''/'') (rev p))
      in if head \<noteq> [] \<and> head \<noteq> replicate (length head) CHR ''/'' then rstrip_sep head else head)"

text \<open>\<^verbatim>\<open>str.startswith\<close>.\<close>

definition startswith :: "string \<Rightarrow> string \<Rightarrow> bool" where
  "startswith s pre \<longleftrightarrow> take (length pre) s = pre"

text \<open>\<^verbatim>\<open>os.path.join(a, b)\<close> (POSIX).\<close>

definition path_join :: "string \<Rightarrow> string \<Rightarrow> string" where
  "path_join a b =
     (if startswith b ''/'' then b
      else if a = [] \<or> last a = CHR ''/'' then a @ b
      else a @ ''/'' @ b)"

text \<open>\<^verbatim>\<open>os.path.basename\<close> (POSIX): what follows the last slash.\<close>

definition basename :: "string \<Rightarrow> string" where
  "basename p = rev (takeWhile (\<lambda>c. c \<noteq> CHR ''/'') (rev p))"

text \<open>
  The file system. A directory is found under its path written without trailing slashes
  (\<open>dir_key\<close>; the operating system does not tell \<^verbatim>\<open>a/b/\<close> from \<^verbatim>\<open>a/b\<close>), and
  maps the names of its files to their contents. The file at a path is the entry
  \<open>basename path\<close> of the directory at \<open>dirname path\<close>. Neither links nor other
  spellings of a path (\<^verbatim>\<open>a//b\<close>, \<^verbatim>\<open>a/./b\<close>) are modelled.
\<close>

definition dir_key :: "string \<Rightarrow> string" where
  "dir_key p = (if p \<noteq> [] \<and> p \<noteq> replicate (length p) CHR ''/'' then rstrip_sep p else p)"

type_synonym 'c dir = "string \<rightharpoonup> 'c"
type_synonym 'c fs = "string \<rightharpoonup> 'c dir"

text \<open>The path names a regular file.\<close>

definition is_file :: "'c fs \<Rightarrow> string \<Rightarrow> bool" where
  "is_file fs p \<longleftrightarrow>
     (case fs (dirname p) of None \<Rightarrow> False | Some entries \<Rightarrow> entries (basename p) \<noteq> None)"

text \<open>The directories above a path: what stands before each of its slashes.\<close>

definition ancestors :: "string \<Rightarrow> string list" where
  "ancestors p =
     map (\<lambda>i. dir_key (take i p))
       (filter (\<lambda>i. p ! i = CHR ''/'' \<and> take i p \<noteq> []) [0..<length p])"

text \<open>
  \<^verbatim>\<open>os.makedirs(p, exist_ok=True)\<close>: the empty path is refused with
  FileNotFoundError, an existing directory is left as it is, a regular file at the path is
  a FileExistsError and one above it a NotADirectoryError; otherwise the directory is
  created empty.
\<close>

definition makedirs :: "string \<Rightarrow> 'c fs \<Rightarrow> unit result \<times> 'c fs" where
  "makedirs p fs =
     (if p = [] then (Inl FileNotFoundError, fs)
      else case fs (dir_key p) of
             Some d \<Rightarrow> (Inr (), fs)
           | None \<Rightarrow>
               if is_file fs (dir_key p) then (Inl FileExistsError, fs)
               else if \<exists>a\<in>set (ancestors (dir_key p)). is_file fs a
                    then (Inl NotADirectoryError, fs)
               else (Inr (), fs(dir_key p \<mapsto> Map.empty)))"

text \<open>
  The path is one on which \<open>makedirs\<close> returns normally: it is not empty, and the
  directory exists or no regular file stands at the path or above it.
\<close>

definition creatable :: "'c fs \<Rightarrow> string \<Rightarrow> bool" where
  "creatable fs p \<longleftrightarrow>
     p \<noteq> [] \<and> (fs (dir_key p) \<noteq> None
                \<or> (\<not> is_file fs (dir_key p) \<and> (\<forall>a\<in>set (ancestors (dir_key p)). \<not> is_file fs a)))"

section \<open>Tables\<close>

text \<open>
  A pandas DataFrame: its column labels and its rows in positional order. A row (index
  label and cell values) is kept abstract. The byte footprint \<^verbatim>\<open>df.values.nbytes\<close>
  depends on the cell types and is a parameter \<open>nbytes\<close> of the functions that read it.
\<close>

record 'r table =
  columns :: "string list"
  rows :: "'r list"

text \<open>\<^verbatim>\<open>df.empty\<close>: some axis has length zero.\<close>

definition df_empty :: "'r table \<Rightarrow> bool" where
  "df_empty df \<longleftrightarrow> rows df = [] \<or> columns df = []"

text \<open>\<^verbatim>\<open>df.iloc[a:b]\<close> for \<open>0 \<le> a \<le> b\<close>: the rows at positions \<open>a, ..., b - 1\<close>.\<close>

definition iloc :: "'r table \<Rightarrow> nat \<Rightarrow> nat \<Rightarrow> 'r table" where
  "iloc df a b = df\<lparr>rows := take (b - a) (drop a (rows df))\<rparr>"

text \<open>
  \<^verbatim>\<open>df.to_pickle(path)\<close> creates or overwrites the file at the path. The directory
  of the file has to exist, and a directory at the path itself is an IsADirectoryError.
\<close>

definition to_pickle :: "'c \<Rightarrow> string \<Rightarrow> 'c fs \<Rightarrow> unit result \<times> 'c fs" where
  "to_pickle c path fs =
     (case fs (dirname path) of
        None \<Rightarrow> (Inl FileNotFoundError, fs)
      | Some entries \<Rightarrow>
          if fs (dir_key path) \<noteq> None then (Inl IsADirectoryError, fs)
          else (Inr (), fs(dirname path \<mapsto> entries(basename path \<mapsto> c))))"

text \<open>\<^verbatim>\<open>pd.read_pickle(path)\<close>: a directory at the path and a missing file raise.\<close>

definition read_pickle :: "string \<Rightarrow> 'c fs \<Rightarrow> 'c result" where
  "read_pickle path fs =
     (if fs (dir_key path) \<noteq> None then Inl IsADirectoryError
      else case fs (dirname path) of
             None \<Rightarrow> Inl FileNotFoundError
           | Some entries \<Rightarrow>
               (case entries (basename path) of
                  None \<Rightarrow> Inl FileNotFoundError
                | Some c \<Rightarrow> Inr c))"

text \<open>The list comprehension over \<^verbatim>\<open>pd.read_pickle\<close>: the first exception ends it.\<close>

fun read_pickles :: "'c fs \<Rightarrow> string list \<Rightarrow> 'c list result" where
  "read_pickles fs [] = Inr []"
| "read_pickles fs (path # paths) =
     (case read_pickle path fs of
        Inl e \<Rightarrow> Inl e
      | Inr c \<Rightarrow> (case read_pickles fs paths of
                    Inl e \<Rightarrow> Inl e
                  | Inr cs \<Rightarrow> Inr (c # cs)))"

text \<open>
  \<^verbatim>\<open>pd.concat\<close>: no object to concatenate is a ValueError; otherwise the rows of
  the tables follow each other in the order of the list, and the columns are the union
  of the tables' columns in order of first appearance. (When tables disagree on their
  columns pandas pads the cells of a row; the abstract rows do not show it.)
\<close>

definition pd_concat :: "'r table list \<Rightarrow> 'r table result" where
  "pd_concat ts =
     (if ts = [] then Inl ValueError
      else Inr \<lparr>columns = rev (remdups (rev (concat (map columns ts)))),
                rows = concat (map rows ts)\<rparr>)"

section \<open>numpy's array_split\<close>

text \<open>\<^verbatim>\<open>numpy.cumsum\<close> of a list of sizes.\<close>

fun cumsum_from :: "nat \<Rightarrow> nat list \<Rightarrow> nat list" where
  "cumsum_from acc [] = []"
| "cumsum_from acc (x # xs) = (acc + x) # cumsum_from (acc + x) xs"

text \<open>
  \<^verbatim>\<open>np.array_split(range(Ntotal), Nsections)\<close>: the first \<open>Ntotal mod Nsections\<close>
  sections have one element more than the others; a section count that is not positive
  is a ValueError.
\<close>

definition array_split :: "nat \<Rightarrow> int \<Rightarrow> nat list list result" where
  "array_split Ntotal Nsections =
     (if Nsections \<le> 0 then Inl ValueError
      else
        let k = nat Nsections;
            Neach_section = Ntotal div k;
            extras = Ntotal mod k;
            section_sizes = [0] @ replicate extras (Neach_section + 1)
                                @ replicate (k - extras) Neach_section;
            div_points = cumsum_from 0 section_sizes
        in Inr (map (\<lambda>i. [div_points ! i ..< div_points ! (i + 1)]) [0..<k]))"

section \<open>LargeDataFrameProcessor\<close>

text \<open>
  The loop of \<^verbatim>\<open>save\<close> over \<^verbatim>\<open>enumerate(np.array_split(...))\<close>: \<^verbatim>\<open>idx[0]\<close> on an
  empty index section raises IndexError; the files written before stay.
\<close>

fun save_chunks :: "'r table \<Rightarrow> string \<Rightarrow> (nat \<times> nat list) list \<Rightarrow> 'r table fs
                    \<Rightarrow> unit result \<times> 'r table fs" where
  "save_chunks df dir_path [] fs = (Inr (), fs)"
| "save_chunks df dir_path ((i, idx) # rest) fs =
     (if idx = [] then (Inl IndexError, fs)
      else case to_pickle (iloc df (hd idx) (last idx + 1))
                  (path_join dir_path (fragment_name i)) fs of
             (Inl e, fs') \<Rightarrow> (Inl e, fs')
           | (Inr u, fs') \<Rightarrow> save_chunks df dir_path rest fs')"

text \<open>
  \<^verbatim>\<open>LargeDataFrameProcessor(max_byte).save(df, file_path)\<close>. The result is the
  outcome (an exception or a normal return) together with the file system it leaves.
\<close>

definition save :: "int \<Rightarrow> ('r table \<Rightarrow> nat) \<Rightarrow> 'r table \<Rightarrow> string \<Rightarrow> 'r table fs
                    \<Rightarrow> unit result \<times> 'r table fs" where
  "save max_byte nbytes df file_path fs =
     (let dir_path = dirname file_path in
      case makedirs dir_path fs of
        (Inl e, fs1) \<Rightarrow> (Inl e, fs1)
      | (Inr u, fs1) \<Rightarrow>
          if df_empty df then to_pickle df (path_join dir_path ''data_0.pkl'') fs1
          else if max_byte = 0 then (Inl ZeroDivisionError, fs1)
          else
            let split_size = int (nbytes df) div max_byte + 1 in
            case array_split (length (rows df)) split_size of
              Inl e \<Rightarrow> (Inl e, fs1)
            | Inr sections \<Rightarrow> save_chunks df dir_path (enumerate 0 sections) fs1)"

text \<open>\<^verbatim>\<open>glob.has_magic\<close>: the string holds one of the characters \<^verbatim>\<open>*\<close>, \<^verbatim>\<open>?\<close>, \<^verbatim>\<open>[\<close>.\<close>

definition has_magic :: "string \<Rightarrow> bool" where
  "has_magic s \<longleftrightarrow> (\<exists>c\<in>set s. c = CHR ''*'' \<or> c = CHR ''?'' \<or> c = CHR ''['')"

text \<open>
  What \<^verbatim>\<open>glob\<close> gets from the operating system. \<open>scandir d\<close> is the order in which
  the entries of the directory \<open>d\<close> are enumerated; Python documents that order as
  arbitrary. \<open>glob_dirs pattern\<close> is the list of directories that \<^verbatim>\<open>glob\<close> finds for
  a directory pattern holding \<^verbatim>\<open>*\<close>, \<^verbatim>\<open>?\<close> or \<^verbatim>\<open>[\<close>: it reads such a directory part as
  a pattern, not as a name.
\<close>

record os_answers =
  scandir :: "string \<Rightarrow> string list"
  glob_dirs :: "string \<Rightarrow> string list"

text \<open>
  The entries of a directory: the names of its files, and the names of the directories
  right below it.
\<close>

definition file_names :: "'c fs \<Rightarrow> string \<Rightarrow> string set" where
  "file_names fs d = (case fs (dir_key d) of None \<Rightarrow> {} | Some entries \<Rightarrow> dom entries)"

definition subdir_names :: "'c fs \<Rightarrow> string \<Rightarrow> string set" where
  "subdir_names fs d = {n. n \<noteq> [] \<and> CHR ''/'' \<notin> set n \<and> fs (path_join d n) \<noteq> None}"

text \<open>
  The list enumerates the directory: each entry once, by its name, which is not empty and
  holds no slash. A missing directory has no entries.
\<close>

definition is_listing :: "'c fs \<Rightarrow> string \<Rightarrow> string list \<Rightarrow> bool" where
  "is_listing fs d names \<longleftrightarrow>
     distinct names
     \<and> (\<forall>n\<in>set names. n \<noteq> [] \<and> CHR ''/'' \<notin> set n)
     \<and> set names = (if fs (dir_key d) = None then {} else file_names fs d \<union> subdir_names fs d)"

text \<open>
  \<^verbatim>\<open>glob(os.path.join(dir_path, 'data_*.pkl'))\<close>. The pattern is split into its
  directory part and \<^verbatim>\<open>data_*.pkl\<close>. A directory part with a glob character stands for
  the directories that \<open>glob_dirs\<close> answers, any other for itself. In each directory the
  matching entries are taken in the order of \<open>scandir\<close> and joined to the directory; a
  directory that cannot be listed has none.
\<close>

definition glob_data_pkl :: "os_answers \<Rightarrow> string \<Rightarrow> 'c fs \<Rightarrow> string list" where
  "glob_data_pkl os dir_path fs =
     (let pathname = path_join dir_path ''data_*.pkl'';
          dirpart = dirname pathname;
          dirs = (if dirpart \<noteq> [] \<and> has_magic dirpart then glob_dirs os dirpart else [dirpart])
      in concat (map (\<lambda>d. map (path_join d)
                            (filter fnmatch_data_pkl
                               (case fs (dir_key d) of
                                  None \<Rightarrow> []
                                | Some entries \<Rightarrow> scandir os d)))
                     dirs))"

text \<open>\<^verbatim>\<open>LargeDataFrameProcessor.load(file_path)\<close>.\<close>

definition load :: "os_answers \<Rightarrow> string \<Rightarrow> 'r table fs \<Rightarrow> 'r table result" where
  "load os file_path fs =
     (let dir_path = dirname file_path in
      case read_pickles fs (glob_data_pkl os dir_path fs) of
        Inl e \<Rightarrow> Inl e
      | Inr ts \<Rightarrow> pd_concat ts)"

text \<open>
  The fragments of a directory: the entries, files or directories, that the pattern of
  \<open>load\<close> matches.
\<close>

definition fragments :: "'c fs \<Rightarrow> string \<Rightarrow> string set" where
  "fragments fs d = {n \<in> file_names fs d \<union> subdir_names fs d. fnmatch_data_pkl n}"

text \<open>
  Where \<open>np.array_split\<close> cuts: the sizes of the sections (the list \<^verbatim>\<open>section_sizes\<close>
  of numpy without its leading zero) and the position at which section \<open>i\<close> starts.
\<close>

definition section_sizes :: "nat \<Rightarrow> nat \<Rightarrow> nat list" where
  "section_sizes n k = replicate (n mod k) (n div k + 1) @ replicate (k - n mod k) (n div k)"

definition section_start :: "nat \<Rightarrow> nat \<Rightarrow> nat \<Rightarrow> nat" where
  "section_start n k i = sum_list (take i (section_sizes n k))"

text \<open>The fragment that \<open>save\<close> writes as number \<open>i\<close> of \<open>k\<close>: the rows of section \<open>i\<close>.\<close>

definition chunk :: "'r table \<Rightarrow> nat \<Rightarrow> nat \<Rightarrow> 'r table" where
  "chunk df k i =
     iloc df (section_start (length (rows df)) k i) (section_start (length (rows df)) k (Suc i))"

section \<open>Final paths\<close>

text \<open>\<^verbatim>\<open>str.rfind(c)\<close>: the index of the last occurrence, or \<open>-1\<close>.\<close>

definition rfind :: "char \<Rightarrow> string \<Rightarrow> int" where
  "rfind c p =
     (if c \<in> set p then int (length p) - 1 - int (length (takeWhile (\<lambda>x. x \<noteq> c) (rev p)))
      else - 1)"

text \<open>
  The loop of \<^verbatim>\<open>genericpath._splitext\<close> that skips the leading dots of the file name:
  the first character that is not a dot, found before the last dot, makes the last dot
  the start of the extension.
\<close>

function splitext_loop :: "string \<Rightarrow> nat \<Rightarrow> nat \<Rightarrow> string \<times> string" where
  "splitext_loop p filenameIndex dotIndex =
     (if filenameIndex < dotIndex then
        (if take 1 (drop filenameIndex p) \<noteq> ''.'' then (take dotIndex p, drop dotIndex p)
         else splitext_loop p (filenameIndex + 1) dotIndex)
      else (p, []))"
  by pat_completeness auto
termination
  by (relation "measure (\<lambda>(p, filenameIndex, dotIndex). dotIndex - filenameIndex)") auto

declare splitext_loop.simps [simp del]

text \<open>\<^verbatim>\<open>os.path.splitext\<close> (POSIX).\<close>

definition splitext :: "string \<Rightarrow> string \<times> string" where
  "splitext p =
     (let sepIndex = rfind CHR ''/'' p;
          dotIndex = rfind CHR ''.'' p
      in if dotIndex > sepIndex then splitext_loop p (nat (sepIndex + 1)) (nat dotIndex)
         else (p, []))"

text \<open>\<^verbatim>\<open>_make_file_path(original_path, unique_id)\<close>.\<close>

definition make_file_path :: "string \<Rightarrow> string option \<Rightarrow> string" where
  "make_file_path original_path unique_id =
     (case unique_id of
        Some uid \<Rightarrow> (case splitext original_path of (base, extension) \<Rightarrow> base @ ''_'' @ uid @ extension)
      | None \<Rightarrow> original_path)"

section \<open>Single-file targets\<close>

text \<open>
  A luigi file-system target: the path it was opened on, the backend that serves it and
  the stream format of the processor.
\<close>

datatype backend = LocalFileSystem | ObjectStorage

record 'fmt handle =
  handle_path :: string
  handle_backend :: backend
  handle_format :: 'fmt

text \<open>
  The collaborators of \<^verbatim>\<open>target.py\<close> that live in other modules, as parameters:
  the lock-scope derivation, the processor registry (which may refuse a path), the test for
  an object-storage path, and the processors' stream format and codec.
\<close>

record ('p, 'l, 'fmt, 'o, 'b) collaborators =
  make_task_lock_params :: "string \<Rightarrow> string option \<Rightarrow> 'l"
  make_file_processor :: "string \<Rightarrow> bool \<Rightarrow> 'p result"
  if_object_storage_path :: "string \<Rightarrow> bool"
  processor_format :: "'p \<Rightarrow> 'fmt"
  processor_dump :: "'p \<Rightarrow> 'o \<Rightarrow> 'b result"
  processor_load :: "'p \<Rightarrow> 'b \<Rightarrow> 'o result"

record ('p, 'l, 'fmt) single_file_target =
  sft_target :: "'fmt handle"
  sft_processor :: 'p
  sft_task_lock_params :: 'l

text \<open>\<^verbatim>\<open>SingleFileTarget._path\<close>.\<close>

definition sft_path :: "('p, 'l, 'fmt) single_file_target \<Rightarrow> string" where
  "sft_path t = handle_path (sft_target t)"

text \<open>\<^verbatim>\<open>_make_file_system_target\<close>; \<^verbatim>\<open>processor or make_file_processor(...)\<close> resolves
  a processor only when none is given.\<close>

definition make_file_system_target ::
  "('p, 'l, 'fmt, 'o, 'b) collaborators \<Rightarrow> string \<Rightarrow> 'p option \<Rightarrow> bool \<Rightarrow> 'fmt handle result" where
  "make_file_system_target env file_path processor store_index_in_feather =
     (case (case processor of
              Some p \<Rightarrow> Inr p
            | None \<Rightarrow> make_file_processor env file_path store_index_in_feather) of
        Inl e \<Rightarrow> Inl e
      | Inr p \<Rightarrow>
          if if_object_storage_path env file_path
          then Inr \<lparr>handle_path = file_path, handle_backend = ObjectStorage,
                    handle_format = processor_format env p\<rparr>
          else Inr \<lparr>handle_path = file_path, handle_backend = LocalFileSystem,
                    handle_format = processor_format env p\<rparr>)"

text \<open>\<^verbatim>\<open>make_target(file_path, unique_id, processor, task_lock_params, store_index_in_feather)\<close>.\<close>

definition make_target ::
  "('p, 'l, 'fmt, 'o, 'b) collaborators \<Rightarrow> string \<Rightarrow> string option \<Rightarrow> 'p option \<Rightarrow> 'l option \<Rightarrow> bool
     \<Rightarrow> ('p, 'l, 'fmt) single_file_target result" where
  "make_target env file_path unique_id processor task_lock_params store_index_in_feather =
     (let lock_params = (case task_lock_params of
                           Some l \<Rightarrow> l
                         | None \<Rightarrow> make_task_lock_params env file_path unique_id);
          final_path = make_file_path file_path unique_id
      in case (case processor of
                 Some p \<Rightarrow> Inr p
               | None \<Rightarrow> make_file_processor env final_path store_index_in_feather) of
           Inl e \<Rightarrow> Inl e
         | Inr p \<Rightarrow>
             (case make_file_system_target env final_path (Some p) store_index_in_feather of
                Inl e \<Rightarrow> Inl e
              | Inr file_system_target \<Rightarrow>
                  Inr \<lparr>sft_target = file_system_target, sft_processor = p,
                       sft_task_lock_params = lock_params\<rparr>))"

text \<open>
  What a dump can touch: the stored objects by path, and the calls made to
  \<^verbatim>\<open>GCSObjectMetadataClient.add_task_state_labels\<close>, oldest first.
\<close>

record 'q annotation =
  ann_path :: string
  ann_task_params :: "(string \<times> string) list option"
  ann_custom_labels :: "(string \<times> string) list option"
  ann_required_task_outputs :: "'q option"

record ('b, 'q) storage =
  objects :: "string \<rightharpoonup> 'b"
  annotations :: "'q annotation list"

text \<open>
  \<^verbatim>\<open>SingleFileTarget._dump\<close>. The handle is opened for writing and commits what the
  processor wrote when the block is left without an exception; an exception of the
  processor leaves the stored object as it was.
\<close>

definition sft_dump ::
  "('p, 'l, 'fmt, 'o, 'b) collaborators \<Rightarrow> ('p, 'l, 'fmt) single_file_target \<Rightarrow> 'o
     \<Rightarrow> (string \<times> string) list option \<Rightarrow> (string \<times> string) list option \<Rightarrow> 'q option
     \<Rightarrow> ('b, 'q) storage \<Rightarrow> unit result \<times> ('b, 'q) storage" where
  "sft_dump env t obj task_params custom_labels required_task_outputs s =
     (case processor_dump env (sft_processor t) obj of
        Inl e \<Rightarrow> (Inl e, s)
      | Inr bytes \<Rightarrow>
          let s1 = s\<lparr>objects := (objects s)(handle_path (sft_target t) \<mapsto> bytes)\<rparr>
          in if startswith (sft_path t) ''gs://''
             then (Inr (), s1\<lparr>annotations := annotations s1 @
                     [\<lparr>ann_path = sft_path t, ann_task_params = task_params,
                       ann_custom_labels = custom_labels,
                       ann_required_task_outputs = required_task_outputs\<rparr>]\<rparr>)
             else (Inr (), s1))"

section \<open>Archive model targets\<close>

text \<open>
  The state an archive target works on: the directories of the local file system and the
  archive files, each holding the entries packed into it.
\<close>

record 'c world =
  w_fs :: "'c fs"
  w_archives :: "string \<rightharpoonup> 'c dir"

text \<open>
  The zip client: \<^verbatim>\<open>make_archive\<close> and \<^verbatim>\<open>unpack_archive\<close> act on the state and
  may raise.
\<close>

record 'c zip_client =
  zip_path :: string
  make_archive :: "'c world \<Rightarrow> unit result \<times> 'c world"
  unpack_archive :: "'c world \<Rightarrow> unit result \<times> 'c world"

text \<open>
  An archive target. The save function is a state transformer. The reconstruction function
  is kept by reference (\<open>'f\<close>), as it is what gets pickled; \<^verbatim>\<open>None\<close> is no function.
\<close>

record ('c, 'o, 'f, 'l) model_target =
  mt_zip_client :: "'c zip_client"
  mt_temporary_directory :: string
  mt_save_function :: "'o \<Rightarrow> string \<Rightarrow> 'c world \<Rightarrow> unit result \<times> 'c world"
  mt_load_function :: "'f option"
  mt_task_lock_params :: 'l

text \<open>
  What an archive target calls outside its own class: the nested single-file target for
  the file of the reconstruction function (\<^verbatim>\<open>make_target(path).dump\<close> and
  \<^verbatim>\<open>make_target(path).load\<close>), the call of a reconstruction function on the model
  file, and the truth value that Python gives a reconstruction function (an object with
  \<^verbatim>\<open>__bool__\<close> or \<^verbatim>\<open>__len__\<close> can be callable and false).
\<close>

record ('c, 'o, 'f, 'q) nested =
  nested_dump :: "string \<Rightarrow> 'f option \<Rightarrow> (string \<times> string) list option
                    \<Rightarrow> (string \<times> string) list option \<Rightarrow> 'q option
                    \<Rightarrow> 'c world \<Rightarrow> unit result \<times> 'c world"
  nested_load :: "string \<Rightarrow> 'c world \<Rightarrow> 'f option result \<times> 'c world"
  call_load_function :: "'f \<Rightarrow> string \<Rightarrow> 'c world \<Rightarrow> 'o result \<times> 'c world"
  truthy :: "'f \<Rightarrow> bool"

definition model_path :: "('c, 'o, 'f, 'l) model_target \<Rightarrow> string" where
  "model_path t = path_join (mt_temporary_directory t) ''model.pkl''"

definition load_function_path :: "('c, 'o, 'f, 'l) model_target \<Rightarrow> string" where
  "load_function_path t = path_join (mt_temporary_directory t) ''load_function.pkl''"

text \<open>
  \<^verbatim>\<open>shutil.rmtree(p)\<close>: a missing directory is a FileNotFoundError and a regular
  file a NotADirectoryError; otherwise the directory goes, with every directory below it.
\<close>

definition rmtree :: "string \<Rightarrow> 'c fs \<Rightarrow> unit result \<times> 'c fs" where
  "rmtree p fs =
     (case fs (dir_key p) of
        None \<Rightarrow> (if is_file fs (dir_key p) then (Inl NotADirectoryError, fs)
                 else (Inl FileNotFoundError, fs))
      | Some entries \<Rightarrow>
          (Inr (), (\<lambda>d. if d = dir_key p \<or> take (length (dir_key p) + 1) d = dir_key p @ ''/''
                        then None else fs d)))"

definition remove_temporary_directory ::
  "('c, 'o, 'f, 'l) model_target \<Rightarrow> 'c world \<Rightarrow> unit result \<times> 'c world" where
  "remove_temporary_directory t w =
     (case rmtree (mt_temporary_directory t) (w_fs w) of
        (r, fs') \<Rightarrow> (r, w\<lparr>w_fs := fs'\<rparr>))"

definition make_temporary_directory ::
  "('c, 'o, 'f, 'l) model_target \<Rightarrow> 'c world \<Rightarrow> unit result \<times> 'c world" where
  "make_temporary_directory t w =
     (case makedirs (mt_temporary_directory t) (w_fs w) of
        (r, fs') \<Rightarrow> (r, w\<lparr>w_fs := fs'\<rparr>))"

text \<open>\<^verbatim>\<open>ModelTarget._dump\<close>: five steps in a row; an exception of a step ends the call.\<close>

definition mt_dump ::
  "('c, 'o, 'f, 'q) nested \<Rightarrow> ('c, 'o, 'f, 'l) model_target \<Rightarrow> 'o
     \<Rightarrow> (string \<times> string) list option \<Rightarrow> (string \<times> string) list option \<Rightarrow> 'q option
     \<Rightarrow> 'c world \<Rightarrow> unit result \<times> 'c world" where
  "mt_dump env t obj task_params custom_labels required_task_outputs w =
     (case make_temporary_directory t w of
        (Inl e, w1) \<Rightarrow> (Inl e, w1)
      | (Inr u1, w1) \<Rightarrow>
     (case mt_save_function t obj (model_path t) w1 of
        (Inl e, w2) \<Rightarrow> (Inl e, w2)
      | (Inr u2, w2) \<Rightarrow>
     (case nested_dump env (load_function_path t) (mt_load_function t)
             task_params custom_labels required_task_outputs w2 of
        (Inl e, w3) \<Rightarrow> (Inl e, w3)
      | (Inr u3, w3) \<Rightarrow>
     (case make_archive (mt_zip_client t) w3 of
        (Inl e, w4) \<Rightarrow> (Inl e, w4)
      | (Inr u4, w4) \<Rightarrow> remove_temporary_directory t w4))))"

text \<open>
  \<^verbatim>\<open>self._load_function or make_target(...).load()\<close>: a function that the target
  holds and that Python counts as true is taken as it is; without one, or with one that
  counts as false, the persisted function is loaded.
\<close>

definition resolve_load_function ::
  "('c, 'o, 'f, 'q) nested \<Rightarrow> ('c, 'o, 'f, 'l) model_target \<Rightarrow> 'c world
     \<Rightarrow> 'f option result \<times> 'c world" where
  "resolve_load_function env t w =
     (case mt_load_function t of
        Some f \<Rightarrow> (if truthy env f then (Inr (Some f), w)
                   else nested_load env (load_function_path t) w)
      | None \<Rightarrow> nested_load env (load_function_path t) w)"

text \<open>
  \<^verbatim>\<open>ModelTarget._load\<close>. The assignment to \<^verbatim>\<open>self._load_function\<close> changes the
  target, so the target is returned with the outcome and the state. Calling \<^verbatim>\<open>None\<close>
  is a TypeError.
\<close>

definition mt_load ::
  "('c, 'o, 'f, 'q) nested \<Rightarrow> ('c, 'o, 'f, 'l) model_target \<Rightarrow> 'c world
     \<Rightarrow> 'o result \<times> ('c, 'o, 'f, 'l) model_target \<times> 'c world" where
  "mt_load env t w =
     (case unpack_archive (mt_zip_client t) w of
        (Inl e, w1) \<Rightarrow> (Inl e, t, w1)
      | (Inr u1, w1) \<Rightarrow>
     (case resolve_load_function env t w1 of
        (Inl e, w2) \<Rightarrow> (Inl e, t, w2)
      | (Inr lf, w2) \<Rightarrow>
          let t' = t\<lparr>mt_load_function := lf\<rparr> in
     (case lf of
        None \<Rightarrow> (Inl TypeError, t', w2)
      | Some f \<Rightarrow>
     (case call_load_function env f (model_path t') w2 of
        (Inl e, w3) \<Rightarrow> (Inl e, t', w3)
      | (Inr model, w3) \<Rightarrow>
     (case remove_temporary_directory t' w3 of
        (Inl e, w4) \<Rightarrow> (Inl e, t', w4)
      | (Inr u4, w4) \<Rightarrow> (Inr model, t', w4))))))"

text \<open>
  Modelled from the spec: the zip client that \<^verbatim>\<open>make_zip_client(file_path,
  temporary_directory)\<close> returns is not part of the sources read here. The spec has
  \<open>_dump\<close> "compress the whole scratch directory into one archive file at the target
  path" and \<open>_load\<close> "expand the archive into the scratch directory".
\<close>

definition make_zip_client :: "string \<Rightarrow> string \<Rightarrow> 'c zip_client" where
  "make_zip_client file_path temporary_directory =
     \<lparr>zip_path = file_path,
      make_archive = (\<lambda>w. case w_fs w (dir_key temporary_directory) of
                             None \<Rightarrow> (Inl FileNotFoundError, w)
                           | Some entries \<Rightarrow>
                               (Inr (), w\<lparr>w_archives := (w_archives w)(file_path \<mapsto> entries)\<rparr>)),
      unpack_archive = (\<lambda>w. case w_archives w file_path of
                               None \<Rightarrow> (Inl FileNotFoundError, w)
                             | Some packed \<Rightarrow>
                                 (Inr (), w\<lparr>w_fs := (w_fs w)(dir_key temporary_directory \<mapsto>
                                    (case w_fs w (dir_key temporary_directory) of
                                       None \<Rightarrow> packed
                                     | Some entries \<Rightarrow> entries ++ packed))\<rparr>))\<rparr>"

text \<open>\<^verbatim>\<open>ModelTarget.__init__\<close>.\<close>

definition ModelTarget ::
  "string \<Rightarrow> string \<Rightarrow> 'f option \<Rightarrow> ('o \<Rightarrow> string \<Rightarrow> 'c world \<Rightarrow> unit result \<times> 'c world) \<Rightarrow> 'l
     \<Rightarrow> ('c, 'o, 'f, 'l) model_target" where
  "ModelTarget file_path temporary_directory load_function save_function task_lock_params =
     \<lparr>mt_zip_client = make_zip_client file_path temporary_directory,
      mt_temporary_directory = temporary_directory,
      mt_save_function = save_function,
      mt_load_function = load_function,
      mt_task_lock_params = task_lock_params\<rparr>"

text \<open>
  Modelled from the spec: the nested target's \<open>dump\<close> and \<open>load\<close> run behind the lock
  wrappers and a processor that are not part of the sources read here. The spec has
  \<open>_dump\<close> "separately persist the reconstruction function itself, via a nested
  Single-File target using a generic object-serialization processor, into a second
  fixed-name file", and \<open>_load\<close> "load the persisted one from its fixed file". A file
  holds either a payload written by a save function or a pickled reconstruction function.
\<close>

datatype ('m, 'f) file_content = Payload 'm | Pickled_function "'f option"

definition spec_nested_dump ::
  "string \<Rightarrow> 'f option \<Rightarrow> (string \<times> string) list option \<Rightarrow> (string \<times> string) list option
     \<Rightarrow> 'q option \<Rightarrow> ('m, 'f) file_content world \<Rightarrow> unit result \<times> ('m, 'f) file_content world" where
  "spec_nested_dump path load_function task_params custom_labels required_task_outputs w =
     (case to_pickle (Pickled_function load_function) path (w_fs w) of
        (r, fs') \<Rightarrow> (r, w\<lparr>w_fs := fs'\<rparr>))"

definition spec_nested_load ::
  "string \<Rightarrow> ('m, 'f) file_content world \<Rightarrow> 'f option result \<times> ('m, 'f) file_content world" where
  "spec_nested_load path w =
     (case read_pickle path (w_fs w) of
        Inl e \<Rightarrow> (Inl e, w)
      | Inr (Pickled_function lf) \<Rightarrow> (Inr lf, w)
      | Inr (Payload m) \<Rightarrow> (Inl TypeError, w))"

section \<open>Example collaborators\<close>

text \<open>
  Save and reconstruction functions to run the archive target on: a save function that
  pickles the model into the file it is given, one that raises, and a reconstruction
  function that reads the model back. Every reconstruction function counts as true.
\<close>

definition example_save ::
  "nat \<Rightarrow> string \<Rightarrow> (nat, string) file_content world
     \<Rightarrow> unit result \<times> (nat, string) file_content world" where
  "example_save obj path w =
     (case to_pickle (Payload obj) path (w_fs w) of
        (r, fs') \<Rightarrow> (r, w\<lparr>w_fs := fs'\<rparr>))"

definition example_failing_save ::
  "nat \<Rightarrow> string \<Rightarrow> (nat, string) file_content world
     \<Rightarrow> unit result \<times> (nat, string) file_content world" where
  "example_failing_save obj path w = (Inl (Raised ''disk full''), w)"

definition example_call ::
  "string \<Rightarrow> string \<Rightarrow> (nat, string) file_content world
     \<Rightarrow> nat result \<times> (nat, string) file_content world" where
  "example_call f path w =
     (case read_pickle path (w_fs w) of
        Inl e \<Rightarrow> (Inl e, w)
      | Inr (Payload m) \<Rightarrow> (Inr m, w)
      | Inr (Pickled_function lf) \<Rightarrow> (Inl (Raised ''not a model''), w))"

definition example_nested :: "((nat, string) file_content, nat, string, unit) nested" where
  "example_nested =
     \<lparr>nested_dump = spec_nested_dump, nested_load = spec_nested_load,
      call_load_function = example_call, truthy = (\<lambda>f. True)\<rparr>"

section \<open>Fragment names\<close>

lemma digit_char_inj: "a < 10 \<Longrightarrow> b < 10 \<Longrightarrow> digit_char a = digit_char b \<Longrightarrow> a = b"
proof -
  have d: "distinct ''0123456789''" by simp
  assume "a < 10" "b < 10" "digit_char a = digit_char b"
  then show ?thesis
    using d by (simp add: digit_char_def nth_eq_iff_index_eq del: distinct.simps)
qed

lemma str_nat_length: "0 < length (str_nat n)"
  by (subst str_nat.simps) simp

lemma str_nat_length_big: "10 \<le> n \<Longrightarrow> 2 \<le> length (str_nat n)"
  using str_nat_length [of "n div 10"] by (subst str_nat.simps) (simp add: Suc_le_eq)

lemma str_nat_inj: "str_nat m = str_nat n \<Longrightarrow> m = n"
proof (induction m arbitrary: n rule: str_nat.induct)
  case (1 m)
  show ?case
  proof (cases "m < 10")
    case True
    then have lm: "str_nat m = [digit_char m]" by (subst str_nat.simps) simp
    show ?thesis
    proof (cases "n < 10")
      case True
      then have "str_nat n = [digit_char n]" by (subst str_nat.simps) simp
      with lm "1.prems" \<open>m < 10\<close> True show ?thesis by (auto dest: digit_char_inj)
    next
      case False
      then have "2 \<le> length (str_nat n)" by (simp add: str_nat_length_big)
      with lm "1.prems" show ?thesis by simp
    qed
  next
    case False
    then have lm: "str_nat m = str_nat (m div 10) @ [digit_char (m mod 10)]"
      by (subst str_nat.simps) simp
    show ?thesis
    proof (cases "n < 10")
      case True
      then have "str_nat n = [digit_char n]" by (subst str_nat.simps) simp
      moreover from False have "2 \<le> length (str_nat m)" by (simp add: str_nat_length_big)
      ultimately show ?thesis using "1.prems" by simp
    next
      case nbig: False
      then have ln: "str_nat n = str_nat (n div 10) @ [digit_char (n mod 10)]"
        by (subst str_nat.simps) simp
      from lm ln "1.prems" have e1: "str_nat (m div 10) = str_nat (n div 10)"
        and e2: "digit_char (m mod 10) = digit_char (n mod 10)" by simp_all
      from "1.IH" [OF False e1] have "m div 10 = n div 10" .
      moreover from e2 have "m mod 10 = n mod 10" by (auto dest!: digit_char_inj [rotated 2])
      ultimately show ?thesis by (metis div_mult_mod_eq)
    qed
  qed
qed

lemma fragment_name_inj: "fragment_name i = fragment_name j \<longleftrightarrow> i = j"
  by (auto simp: fragment_name_def dest: str_nat_inj)

lemma fnmatch_fragment_name: "fnmatch_data_pkl (fragment_name i)"
  using str_nat_length [of i] by (simp add: fnmatch_data_pkl_def fragment_name_def)

section \<open>Sections of array_split\<close>

lemma length_cumsum_from: "length (cumsum_from a xs) = length xs"
  by (induction xs arbitrary: a) auto

lemma cumsum_from_nth: "i < length xs \<Longrightarrow> cumsum_from a xs ! i = a + sum_list (take (Suc i) xs)"
proof (induction xs arbitrary: a i)
  case Nil
  then show ?case by simp
next
  case (Cons x xs)
  then show ?case by (cases i) auto
qed

lemma length_section_sizes: "0 < k \<Longrightarrow> length (section_sizes n k) = k"
  by (simp add: section_sizes_def less_imp_le)

lemma sum_list_section_sizes: "0 < k \<Longrightarrow> sum_list (section_sizes n k) = n"
proof -
  assume k: "0 < k"
  have "sum_list (section_sizes n k) = (n mod k) * (n div k + 1) + (k - n mod k) * (n div k)"
    by (simp add: section_sizes_def sum_list_replicate)
  also have "\<dots> = n mod k + k * (n div k)"
    using k by (simp add: algebra_simps mod_less_divisor less_imp_le flip: add_mult_distrib)
  also have "\<dots> = n" by simp
  finally show ?thesis .
qed

lemma array_split_sections:
  assumes "0 < k"
  shows "array_split n (int k) =
           Inr (map (\<lambda>i. [section_start n k i ..< section_start n k (Suc i)]) [0..<k])"
proof -
  let ?cs = "cumsum_from 0 (section_sizes n k)"
  have len: "length (section_sizes n k) = k" using assms by (rule length_section_sizes)
  have pt2: "?cs ! i = section_start n k (Suc i)" if "i < k" for i
    using that len by (simp add: cumsum_from_nth section_start_def)
  have pt1: "(0 # ?cs) ! i = section_start n k i" if "i \<le> k" for i
    using that pt2 by (cases i) (simp_all add: section_start_def)
  have "map (\<lambda>i. [(0 # ?cs) ! i ..< (0 # ?cs) ! (i + 1)]) [0..<k]
        = map (\<lambda>i. [section_start n k i ..< section_start n k (Suc i)]) [0..<k]"
    by (rule map_cong) (simp_all add: pt1 pt2 del: nth_Cons_Suc)
  then show ?thesis
    using assms by (simp add: array_split_def Let_def section_sizes_def)
qed

lemma section_start_Suc:
  "0 < k \<Longrightarrow> i < k \<Longrightarrow> section_start n k (Suc i) = section_start n k i + section_sizes n k ! i"
  by (simp add: section_start_def take_Suc_conv_app_nth length_section_sizes)

lemma section_size_nth:
  "0 < k \<Longrightarrow> i < k \<Longrightarrow> section_sizes n k ! i = (if i < n mod k then n div k + 1 else n div k)"
  by (auto simp: section_sizes_def nth_append)

lemma split_by_sizes:
  "concat (map (\<lambda>i. take (sizes ! i) (drop (sum_list (take i sizes)) xs)) [0..<length sizes])
     = take (sum_list sizes) xs"
proof (induction sizes rule: rev_induct)
  case Nil
  show ?case by simp
next
  case (snoc s sizes)
  let ?F = "\<lambda>ss i. take (ss ! i) (drop (sum_list (take i ss)) xs)"
  have m: "map (?F (sizes @ [s])) [0..<length sizes] = map (?F sizes) [0..<length sizes]"
    by (rule map_cong) (simp_all add: nth_append)
  have l: "?F (sizes @ [s]) (length sizes) = take s (drop (sum_list sizes) xs)"
    by simp
  have "concat (map (?F (sizes @ [s])) [0..<length (sizes @ [s])])
        = concat (map (?F (sizes @ [s])) [0..<length sizes]) @ ?F (sizes @ [s]) (length sizes)"
    by simp
  also have "\<dots> = take (sum_list sizes) xs @ take s (drop (sum_list sizes) xs)"
    unfolding m l snoc.IH ..
  also have "\<dots> = take (sum_list (sizes @ [s])) xs"
    by (simp add: take_add)
  finally show ?case .
qed

text \<open>The rows of a chunk, and the chunks in ascending order give back the rows.\<close>

lemma rows_chunk:
  "0 < k \<Longrightarrow> i < k \<Longrightarrow>
     rows (chunk df k i) = take (section_sizes (length (rows df)) k ! i)
                             (drop (section_start (length (rows df)) k i) (rows df))"
  by (simp add: chunk_def iloc_def section_start_Suc)

lemma concat_chunks:
  assumes "0 < k"
  shows "concat (map (\<lambda>i. rows (chunk df k i)) [0..<k]) = rows df"
proof -
  let ?n = "length (rows df)"
  let ?ss = "section_sizes ?n k"
  have "map (\<lambda>i. rows (chunk df k i)) [0..<k]
        = map (\<lambda>i. take (?ss ! i) (drop (sum_list (take i ?ss)) (rows df))) [0..<length ?ss]"
    using assms by (auto simp: rows_chunk length_section_sizes section_start_def)
  then have "concat (map (\<lambda>i. rows (chunk df k i)) [0..<k]) = take (sum_list ?ss) (rows df)"
    by (simp only: split_by_sizes)
  then show ?thesis using assms by (simp add: sum_list_section_sizes)
qed

lemma section_empty_iff:
  assumes "0 < k" "i < k"
  shows "[section_start n k i ..< section_start n k (Suc i)] = [] \<longleftrightarrow> section_sizes n k ! i = 0"
  using assms by (auto simp: section_start_Suc)

lemma sections_nonempty_iff:
  assumes "0 < k"
  shows "(\<forall>i<k. section_sizes n k ! i \<noteq> 0) \<longleftrightarrow> k \<le> n"
proof
  assume a: "\<forall>i<k. section_sizes n k ! i \<noteq> 0"
  show "k \<le> n"
  proof (rule ccontr)
    assume "\<not> k \<le> n"
    then have "n < k" by simp
    then have "n div k = 0" "n mod k = n" by simp_all
    with \<open>n < k\<close> assms have "section_sizes n k ! n = 0"
      by (simp add: section_size_nth)
    with a \<open>n < k\<close> show False by blast
  qed
next
  assume "k \<le> n"
  then have "0 < n div k" using assms by (simp add: div_greater_zero_iff)
  then show "\<forall>i<k. section_sizes n k ! i \<noteq> 0"
    using assms by (simp add: section_size_nth)
qed

section \<open>Paths\<close>

lemma all_slashes_iff: "s = replicate (length s) c \<longleftrightarrow> (\<forall>x\<in>set s. x = c)"
proof
  assume "s = replicate (length s) c"
  then have "set s = set (replicate (length s) c)" by simp
  then show "\<forall>x\<in>set s. x = c" by (auto simp: set_replicate_conv_if split: if_splits)
next
  assume "\<forall>x\<in>set s. x = c"
  then show "s = replicate (length s) c" by (simp add: replicate_length_same)
qed

lemma rstrip_sep_last: "s \<noteq> [] \<Longrightarrow> last s \<noteq> CHR ''/'' \<Longrightarrow> rstrip_sep s = s"
  by (cases s rule: rev_cases) (simp_all add: rstrip_sep_def)

lemma rstrip_sep_snoc: "rstrip_sep (s @ ''/'') = rstrip_sep s"
  by (simp add: rstrip_sep_def)

lemma length_rstrip_sep: "length (rstrip_sep s) \<le> length s"
  using length_dropWhile_le [of "\<lambda>c. c = CHR ''/''" "rev s"] by (simp add: rstrip_sep_def)

lemma length_dir_key: "length (dir_key p) \<le> length p"
  by (simp add: dir_key_def length_rstrip_sep)

lemma rstrip_sep_canonical:
  assumes "\<exists>c\<in>set s. c \<noteq> CHR ''/''"
  shows "rstrip_sep s \<noteq> [] \<and> last (rstrip_sep s) \<noteq> CHR ''/''"
proof -
  let ?d = "dropWhile (\<lambda>c. c = CHR ''/'') (rev s)"
  from assms have ne: "?d \<noteq> []" by (auto simp: dropWhile_eq_Nil_conv)
  then have "hd ?d \<noteq> CHR ''/''" using hd_dropWhile [of "\<lambda>c. c = CHR ''/''" "rev s"] by simp
  with ne show ?thesis by (simp add: rstrip_sep_def last_rev)
qed

lemma dir_key_cases:
  "dir_key p = [] \<and> p = []
   \<or> dir_key p = p \<and> p \<noteq> [] \<and> (\<forall>c\<in>set p. c = CHR ''/'')
   \<or> dir_key p \<noteq> [] \<and> last (dir_key p) \<noteq> CHR ''/'' \<and> (\<exists>c\<in>set p. c \<noteq> CHR ''/'')"
proof (cases "p = []")
  case True
  then show ?thesis by (simp add: dir_key_def)
next
  case False
  show ?thesis
  proof (cases "\<forall>c\<in>set p. c = CHR ''/''")
    case True
    with False show ?thesis by (simp add: dir_key_def all_slashes_iff)
  next
    case nonslash: False
    then have "dir_key p = rstrip_sep p" using False by (simp add: dir_key_def all_slashes_iff)
    with rstrip_sep_canonical [of p] nonslash show ?thesis by auto
  qed
qed

lemma dir_key_fixed:
  "p = [] \<or> (\<forall>c\<in>set p. c = CHR ''/'') \<or> last p \<noteq> CHR ''/'' \<Longrightarrow> dir_key p = p"
  by (auto simp: dir_key_def all_slashes_iff rstrip_sep_last)

lemma dir_key_idem: "dir_key (dir_key p) = dir_key p"
proof -
  from dir_key_cases [of p] consider
    (empty) "dir_key p = []" | (same) "dir_key p = p"
    | (stripped) "dir_key p \<noteq> []" "last (dir_key p) \<noteq> CHR ''/''"
    by blast
  then show ?thesis
  proof cases
    case empty
    then show ?thesis by (simp add: dir_key_def)
  next
    case same
    then show ?thesis by simp
  next
    case stripped
    then show ?thesis by (intro dir_key_fixed) simp
  qed
qed

lemma dir_key_dirname: "dir_key (dirname p) = dirname p"
proof -
  have "dirname p = dir_key (rev (dropWhile (\<lambda>c. c \<noteq> CHR ''/'') (rev p)))"
    by (simp add: dirname_def dir_key_def Let_def)
  then show ?thesis by (simp add: dir_key_idem)
qed

text \<open>A name: not empty and without a slash, as the names of directory entries are.\<close>

lemma path_join_name:
  assumes "n \<noteq> []" "CHR ''/'' \<notin> set n"
  shows "path_join d n = (if d = [] \<or> last d = CHR ''/'' then d @ n else d @ ''/'' @ n)"
  using assms by (cases n) (auto simp: path_join_def startswith_def)

lemma dirname_path_join:
  assumes "n \<noteq> []" "CHR ''/'' \<notin> set n"
  shows "dirname (path_join d n) = dir_key d"
proof -
  have head: "rev (dropWhile (\<lambda>c. c \<noteq> CHR ''/'') (rev (xs @ n)))
              = rev (dropWhile (\<lambda>c. c \<noteq> CHR ''/'') (rev xs))" for xs
    by (simp add: rev_append) (subst dropWhile_append2, use assms(2) in auto)
  have dn: "dirname (xs @ n) = dir_key (rev (dropWhile (\<lambda>c. c \<noteq> CHR ''/'') (rev xs)))" for xs
    unfolding dirname_def head by (simp add: dir_key_def Let_def)
  show ?thesis
  proof (cases "d = []")
    case True
    with dn [of "[]"] assms show ?thesis by (simp add: path_join_name)
  next
    case False
    show ?thesis
    proof (cases "last d = CHR ''/''")
      case True
      then have "hd (rev d) = CHR ''/''" using False by (simp add: hd_rev)
      then have "dropWhile (\<lambda>c. c \<noteq> CHR ''/'') (rev d) = rev d"
        using False by (cases "rev d") auto
      with dn [of d] assms True False show ?thesis by (simp add: path_join_name)
    next
      case nl: False
      have "dirname (path_join d n) = dir_key (d @ ''/'')"
        using dn [of "d @ ''/''"] assms nl False by (simp add: path_join_name)
      also have "\<dots> = rstrip_sep (d @ ''/'')"
      proof -
        have "last d \<in> set (d @ ''/'')" using False by simp
        with nl have "\<not> (\<forall>c\<in>set (d @ ''/''). c = CHR ''/'')" by metis
        then show ?thesis by (simp only: dir_key_def all_slashes_iff) simp
      qed
      also have "\<dots> = d" using nl False by (simp add: rstrip_sep_snoc rstrip_sep_last)
      also have "\<dots> = dir_key d" using nl by (simp add: dir_key_fixed)
      finally show ?thesis .
    qed
  qed
qed

lemma basename_path_join:
  assumes "n \<noteq> []" "CHR ''/'' \<notin> set n"
  shows "basename (path_join d n) = n"
proof -
  have tw: "takeWhile (\<lambda>c. c \<noteq> CHR ''/'') (rev n @ CHR ''/'' # xs) = rev n" for xs
    by (subst takeWhile_append2) (use assms(2) in auto)
  have b1: "basename (xs @ ''/'' @ n) = n" for xs
    by (simp add: basename_def tw)
  show ?thesis
  proof (cases "d = []")
    case True
    have "takeWhile (\<lambda>c. c \<noteq> CHR ''/'') (rev n) = rev n"
      by (rule takeWhile_eq_all_conv [THEN iffD2]) (use assms(2) in auto)
    then have "basename n = n" by (simp only: basename_def rev_rev_ident)
    with True assms show ?thesis by (simp add: path_join_name)
  next
    case False
    show ?thesis
    proof (cases "last d = CHR ''/''")
      case True
      with False obtain xs where "d = xs @ ''/''" by (cases d rule: rev_cases) auto
      with b1 [of xs] assms show ?thesis by (simp add: path_join_name)
    next
      case nl: False
      with b1 [of d] assms False show ?thesis by (simp add: path_join_name)
    qed
  qed
qed

lemma last_path_join:
  assumes "n \<noteq> []" "CHR ''/'' \<notin> set n"
  shows "path_join d n \<noteq> [] \<and> last (path_join d n) \<noteq> CHR ''/''"
proof -
  have "last n \<in> set n" using assms(1) by (rule last_in_set)
  with assms(2) have "last n \<noteq> CHR ''/''" by metis
  with assms show ?thesis by (simp add: path_join_name)
qed

lemma dir_key_path_join:
  assumes "n \<noteq> []" "CHR ''/'' \<notin> set n"
  shows "dir_key (path_join d n) = path_join d n"
  using last_path_join [OF assms, of d] by (simp add: dir_key_fixed)

lemma length_path_join:
  assumes "n \<noteq> []" "CHR ''/'' \<notin> set n"
  shows "length d < length (path_join d n)"
  using assms by (simp add: path_join_name)

lemma path_join_neq:
  assumes "n \<noteq> []" "CHR ''/'' \<notin> set n"
  shows "path_join d n \<noteq> d" and "path_join d n \<noteq> dir_key d"
  using length_path_join [OF assms, of d] length_dir_key [of d] by auto

lemma path_join_inj:
  assumes "n \<noteq> []" "CHR ''/'' \<notin> set n" "n' \<noteq> []" "CHR ''/'' \<notin> set n'"
  shows "path_join d n = path_join d n' \<longleftrightarrow> n = n'"
  using assms by (auto simp: path_join_name)

lemma str_nat_digits: "set (str_nat n) \<subseteq> set ''0123456789''"
proof (induction n rule: str_nat.induct)
  case (1 n)
  have dg: "digit_char d \<in> set ''0123456789''" if "d < 10" for d
    using that unfolding digit_char_def by (intro nth_mem) simp
  show ?case
  proof (cases "n < 10")
    case True
    then have "str_nat n = [digit_char n]" by (subst str_nat.simps) simp
    with dg [OF True] show ?thesis by simp
  next
    case False
    then have "str_nat n = str_nat (n div 10) @ [digit_char (n mod 10)]"
      by (subst str_nat.simps) simp
    moreover have "digit_char (n mod 10) \<in> set ''0123456789''" by (rule dg) simp
    ultimately show ?thesis using "1.IH" [OF False] by simp
  qed
qed

lemma fragment_name_is_name: "fragment_name i \<noteq> [] \<and> CHR ''/'' \<notin> set (fragment_name i)"
proof -
  have "CHR ''/'' \<notin> set ''0123456789''" by simp
  with str_nat_digits [of i] have "CHR ''/'' \<notin> set (str_nat i)" by blast
  then show ?thesis by (simp add: fragment_name_def)
qed

lemma fnmatch_nonempty: "fnmatch_data_pkl n \<Longrightarrow> n \<noteq> []"
  by (auto simp: fnmatch_data_pkl_def)

lemma fragment_name_0: "fragment_name 0 = ''data_0.pkl''"
  by (simp add: fragment_name_def str_nat.simps digit_char_def)

lemma fragment_name_1: "fragment_name (Suc 0) = ''data_1.pkl''"
  by (simp add: fragment_name_def str_nat.simps digit_char_def)

section \<open>Directories and files\<close>

lemma makedirs_creatable:
  "creatable fs p \<Longrightarrow>
     makedirs p fs
       = (Inr (), fs(dir_key p \<mapsto> (case fs (dir_key p) of None \<Rightarrow> Map.empty | Some e \<Rightarrow> e)))"
  by (auto simp: makedirs_def creatable_def map_upd_triv split: option.splits)

lemma makedirs_Inr: "makedirs p fs = (Inr u, fs') \<Longrightarrow> creatable fs p"
  by (auto simp: makedirs_def creatable_def split: option.splits if_splits)


lemma creatable_iff: "creatable fs p \<longleftrightarrow> fst (makedirs p fs) = Inr ()"
proof
  assume "creatable fs p"
  then show "fst (makedirs p fs) = Inr ()" by (simp add: makedirs_creatable)
next
  assume "fst (makedirs p fs) = Inr ()"
  then have "makedirs p fs = (Inr (), snd (makedirs p fs))" by (simp add: prod_eq_iff)
  then show "creatable fs p" by (rule makedirs_Inr)
qed

lemma to_pickle_name:
  assumes "fs (dir_key d) = Some e" "n \<noteq> []" "CHR ''/'' \<notin> set n"
  shows "to_pickle c (path_join d n) fs
         = (if fs (path_join d n) \<noteq> None then (Inl IsADirectoryError, fs)
            else (Inr (), fs(dir_key d \<mapsto> e(n \<mapsto> c))))"
  using assms
  by (simp add: to_pickle_def dirname_path_join basename_path_join dir_key_path_join)

lemma to_pickle_fragment:
  assumes "fs d = Some e" "dir_key d = d"
  shows "to_pickle c (path_join d (fragment_name i)) fs
         = (if fs (path_join d (fragment_name i)) \<noteq> None then (Inl IsADirectoryError, fs)
            else (Inr (), fs(d \<mapsto> e(fragment_name i \<mapsto> c))))"
  using to_pickle_name [of fs d e "fragment_name i" c] assms fragment_name_is_name [of i]
  by simp

lemma fragment_path_neq: "path_join d (fragment_name i) \<noteq> d"
  using path_join_neq(1) [of "fragment_name i" d] fragment_name_is_name [of i] by blast

section \<open>The loop over the sections\<close>

lemma save_chunks_ok:
  assumes "fs d = Some e" "dir_key d = d" "\<forall>idx\<in>set secs. idx \<noteq> []"
    and "\<forall>j<length secs. fs (path_join d (fragment_name (m + j))) = None"
  shows "\<exists>e'. save_chunks df d (enumerate m secs) fs = (Inr (), fs(d \<mapsto> e'))
           \<and> (\<forall>j<length secs. e' (fragment_name (m + j))
                  = Some (iloc df (hd (secs ! j)) (last (secs ! j) + 1)))
           \<and> (\<forall>name. (\<forall>j<length secs. name \<noteq> fragment_name (m + j)) \<longrightarrow> e' name = e name)"
  using assms
proof (induction secs arbitrary: m fs e)
  case Nil
  then have "fs(d \<mapsto> e) = fs" by (simp add: map_upd_triv)
  then show ?case by (intro exI [of _ e]) simp
next
  case (Cons idx secs)
  let ?c = "iloc df (hd idx) (last idx + 1)"
  let ?e1 = "e(fragment_name m \<mapsto> ?c)"
  let ?fs1 = "fs(d \<mapsto> ?e1)"
  have ne: "idx \<noteq> []" and rest: "\<forall>x\<in>set secs. x \<noteq> []" using Cons.prems(3) by simp_all
  have free0: "fs (path_join d (fragment_name m)) = None"
    using Cons.prems(4) by (auto dest: spec [of _ 0])
  have free: "\<forall>j<length secs. ?fs1 (path_join d (fragment_name (Suc m + j))) = None"
  proof (intro allI impI)
    fix j assume "j < length secs"
    then have "fs (path_join d (fragment_name (m + Suc j))) = None"
      using Cons.prems(4) by (auto dest: spec [of _ "Suc j"])
    then show "?fs1 (path_join d (fragment_name (Suc m + j))) = None"
      by (simp add: fragment_path_neq)
  qed
  have "?fs1 d = Some ?e1" by simp
  from Cons.IH [of ?fs1 ?e1 "Suc m", OF this Cons.prems(2) rest free] obtain e' where
    run: "save_chunks df d (enumerate (Suc m) secs) ?fs1 = (Inr (), ?fs1(d \<mapsto> e'))"
    and hit: "\<forall>j<length secs. e' (fragment_name (Suc m + j))
                = Some (iloc df (hd (secs ! j)) (last (secs ! j) + 1))"
    and miss: "\<forall>name. (\<forall>j<length secs. name \<noteq> fragment_name (Suc m + j)) \<longrightarrow> e' name = ?e1 name"
    by blast
  have step: "save_chunks df d (enumerate m (idx # secs)) fs = (Inr (), fs(d \<mapsto> e'))"
    using ne run free0 by (simp add: to_pickle_fragment [where fs = fs and d = d and e = e, OF Cons.prems(1,2)])
  have first: "e' (fragment_name m) = Some ?c"
  proof -
    have "\<forall>j<length secs. fragment_name m \<noteq> fragment_name (Suc m + j)"
      by (simp add: fragment_name_inj)
    with miss have "e' (fragment_name m) = ?e1 (fragment_name m)" by blast
    then show ?thesis by simp
  qed
  have hit': "e' (fragment_name (m + j)) = Some (iloc df (hd ((idx # secs) ! j)) (last ((idx # secs) ! j) + 1))"
    if "j < length (idx # secs)" for j
  proof (cases j)
    case 0
    with first show ?thesis by simp
  next
    case (Suc j')
    with that hit show ?thesis by simp
  qed
  have miss': "e' name = e name" if "\<forall>j<length (idx # secs). name \<noteq> fragment_name (m + j)" for name
  proof -
    from that have "name \<noteq> fragment_name m" by force
    moreover from that have "\<forall>j<length secs. name \<noteq> fragment_name (Suc m + j)" by force
    ultimately show ?thesis using miss by simp
  qed
  from step hit' miss' show ?case by blast
qed

lemma save_chunks_Inr:
  assumes "fs d = Some e" "dir_key d = d"
    and "save_chunks df d (enumerate m secs) fs = (Inr u, fs')"
  shows "(\<forall>idx\<in>set secs. idx \<noteq> [])
         \<and> (\<forall>j<length secs. fs (path_join d (fragment_name (m + j))) = None)"
  using assms
proof (induction secs arbitrary: m fs e)
  case Nil
  show ?case by simp
next
  case (Cons idx secs)
  let ?e1 = "e(fragment_name m \<mapsto> iloc df (hd idx) (last idx + 1))"
  let ?fs1 = "fs(d \<mapsto> ?e1)"
  from Cons.prems(3) have ne: "idx \<noteq> []" by (auto split: if_splits)
  from Cons.prems(3) ne have free0: "fs (path_join d (fragment_name m)) = None"
    by (auto simp: to_pickle_fragment [where fs = fs and d = d and e = e, OF Cons.prems(1,2)] split: if_splits)
  from Cons.prems(3) ne free0 have run: "save_chunks df d (enumerate (Suc m) secs) ?fs1 = (Inr u, fs')"
    by (simp add: to_pickle_fragment [where fs = fs and d = d and e = e, OF Cons.prems(1,2)])
  have "?fs1 d = Some ?e1" by simp
  from Cons.IH [of ?fs1 ?e1 "Suc m", OF this Cons.prems(2) run]
  have rest: "\<forall>idx\<in>set secs. idx \<noteq> []"
    and free1: "\<forall>j<length secs. ?fs1 (path_join d (fragment_name (Suc m + j))) = None"
    by simp_all
  have "fs (path_join d (fragment_name (m + j))) = None" if "j < length (idx # secs)" for j
  proof (cases j)
    case 0
    with free0 show ?thesis by simp
  next
    case (Suc j')
    with that free1 have "?fs1 (path_join d (fragment_name (Suc m + j'))) = None" by simp
    with Suc show ?thesis by (simp add: fragment_path_neq)
  qed
  with ne rest show ?case by simp
qed




section \<open>What save writes\<close>

lemma hd_upt_last: "a < b \<Longrightarrow> hd [a..<b] = a \<and> last [a..<b] + 1 = b"
  by (simp add: last_upt)

lemma sections_all_nonempty:
  assumes "0 < k" "k \<le> n"
  shows "\<forall>idx\<in>set (map (\<lambda>i. [section_start n k i ..< section_start n k (Suc i)]) [0..<k]). idx \<noteq> []"
proof -
  have "[section_start n k i ..< section_start n k (Suc i)] \<noteq> []" if "i < k" for i
    using that assms sections_nonempty_iff [of k n] section_empty_iff [of k i n] by blast
  then show ?thesis by auto
qed

lemma makedirs_dirname:
  "creatable fs (dirname p) \<Longrightarrow>
     makedirs (dirname p) fs
       = (Inr (), fs(dirname p \<mapsto> (case fs (dirname p) of None \<Rightarrow> Map.empty | Some e \<Rightarrow> e)))"
  using makedirs_creatable [of fs "dirname p"] by (simp add: dir_key_dirname)

lemma save_Inr_creatable:
  "fst (save max_byte nbytes df p fs) = Inr u \<Longrightarrow> creatable fs (dirname p)"
proof -
  assume ok: "fst (save max_byte nbytes df p fs) = Inr u"
  have "fst (makedirs (dirname p) fs) = Inr ()"
  proof (cases "makedirs (dirname p) fs")
    case (Pair r fs1)
    with ok show ?thesis by (cases r) (auto simp: save_def Let_def)
  qed
  then show ?thesis by (simp add: creatable_iff)
qed

lemma save_nonempty:
  assumes ne: "\<not> df_empty df" and dir: "creatable fs (dirname p)" and mb: "max_byte \<noteq> 0"
    and pos: "0 < int (nbytes df) div max_byte + 1"
    and k: "k = nat (int (nbytes df) div max_byte + 1)"
    and le: "k \<le> length (rows df)"
    and free: "\<forall>j<k. fs (path_join (dirname p) (fragment_name j)) = None"
  shows "\<exists>e'. save max_byte nbytes df p fs = (Inr (), fs(dirname p \<mapsto> e'))
           \<and> (\<forall>j<k. e' (fragment_name j) = Some (chunk df k j))
           \<and> (\<forall>name. name \<notin> fragment_name ` {..<k} \<longrightarrow>
                 e' name = (case fs (dirname p) of None \<Rightarrow> None | Some e \<Rightarrow> e name))"
proof -
  let ?n = "length (rows df)"
  let ?d = "dirname p"
  let ?e0 = "case fs ?d of None \<Rightarrow> Map.empty | Some e \<Rightarrow> e"
  let ?fs1 = "fs(?d \<mapsto> ?e0)"
  let ?secs = "map (\<lambda>i. [section_start ?n k i ..< section_start ?n k (Suc i)]) [0..<k]"
  have kpos: "0 < k" using pos k by simp
  have ik: "int (nbytes df) div max_byte + 1 = int k" using pos k by simp
  have split: "array_split ?n (int (nbytes df) div max_byte + 1) = Inr ?secs"
    unfolding ik using kpos by (rule array_split_sections)
  have at: "?fs1 ?d = Some ?e0" by simp
  have free1: "\<forall>j<length ?secs. ?fs1 (path_join ?d (fragment_name (0 + j))) = None"
    using free by (simp add: fragment_path_neq)
  from save_chunks_ok [of ?fs1 ?d ?e0 ?secs 0 df, OF at dir_key_dirname
      sections_all_nonempty [OF kpos le] free1]
  obtain e' where
    run: "save_chunks df ?d (enumerate 0 ?secs) ?fs1 = (Inr (), ?fs1(?d \<mapsto> e'))"
    and hit: "\<forall>j<length ?secs. e' (fragment_name (0 + j))
                = Some (iloc df (hd (?secs ! j)) (last (?secs ! j) + 1))"
    and miss: "\<forall>name. (\<forall>j<length ?secs. name \<noteq> fragment_name (0 + j)) \<longrightarrow> e' name = ?e0 name"
    by blast
  have res: "save max_byte nbytes df p fs = (Inr (), fs(?d \<mapsto> e'))"
    using ne mb split run by (simp add: save_def Let_def makedirs_dirname [OF dir])
  have hit': "e' (fragment_name j) = Some (chunk df k j)" if "j < k" for j
  proof -
    have "section_sizes ?n k ! j \<noteq> 0"
      using that kpos le sections_nonempty_iff [of k ?n] by blast
    then have "section_start ?n k j < section_start ?n k (Suc j)"
      using that kpos by (simp add: section_start_Suc)
    then have "iloc df (hd (?secs ! j)) (last (?secs ! j) + 1) = chunk df k j"
      using that by (simp add: chunk_def hd_upt_last)
    with hit that show ?thesis by simp
  qed
  have miss': "e' name = (case fs ?d of None \<Rightarrow> None | Some e \<Rightarrow> e name)"
    if "name \<notin> fragment_name ` {..<k}" for name
  proof -
    from that have "\<forall>j<length ?secs. name \<noteq> fragment_name (0 + j)" by auto
    with miss have "e' name = ?e0 name" by blast
    then show ?thesis by (simp split: option.splits)
  qed
  from res hit' miss' show ?thesis by blast
qed

lemma save_nonempty_Inr:
  assumes run: "save max_byte nbytes df p fs = (Inr u, fs')" and ne: "\<not> df_empty df"
  shows "creatable fs (dirname p) \<and> max_byte \<noteq> 0 \<and> 0 < int (nbytes df) div max_byte + 1
           \<and> nat (int (nbytes df) div max_byte + 1) \<le> length (rows df)
           \<and> (\<forall>j<nat (int (nbytes df) div max_byte + 1).
                 fs (path_join (dirname p) (fragment_name j)) = None)"
proof -
  let ?n = "length (rows df)"
  let ?s = "int (nbytes df) div max_byte + 1"
  let ?k = "nat ?s"
  let ?d = "dirname p"
  let ?e0 = "case fs ?d of None \<Rightarrow> Map.empty | Some e \<Rightarrow> e"
  let ?fs1 = "fs(?d \<mapsto> ?e0)"
  let ?secs = "map (\<lambda>i. [section_start ?n ?k i ..< section_start ?n ?k (Suc i)]) [0..<?k]"
  from run have dir: "creatable fs ?d"
    using save_Inr_creatable [of max_byte nbytes df p fs u] by simp
  note mk = makedirs_dirname [OF dir]
  have mb: "max_byte \<noteq> 0"
    using run ne by (auto simp: save_def Let_def mk split: if_splits)
  have pos: "0 < ?s"
    using run ne mb by (auto simp: save_def mk array_split_def Let_def split: if_splits)
  then have kpos: "0 < ?k" and ik: "?s = int ?k" by simp_all
  have split: "array_split ?n ?s = Inr ?secs"
    by (subst ik) (rule array_split_sections [OF kpos])
  from run ne mb split have loop: "save_chunks df ?d (enumerate 0 ?secs) ?fs1 = (Inr u, fs')"
    by (simp add: save_def Let_def mk)
  have at: "?fs1 ?d = Some ?e0" by simp
  from save_chunks_Inr [of ?fs1 ?d ?e0 df 0 ?secs u fs', OF at dir_key_dirname loop]
  have all: "\<forall>idx\<in>set ?secs. idx \<noteq> []"
    and free1: "\<forall>j<length ?secs. ?fs1 (path_join ?d (fragment_name (0 + j))) = None"
    by blast+
  have "section_sizes ?n ?k ! i \<noteq> 0" if "i < ?k" for i
  proof -
    from all that have "[section_start ?n ?k i ..< section_start ?n ?k (Suc i)] \<noteq> []" by simp
    with section_empty_iff [OF kpos that, of ?n] show ?thesis by blast
  qed
  with sections_nonempty_iff [OF kpos, of ?n] have le: "?k \<le> ?n" by blast
  have free: "\<forall>j<?k. fs (path_join ?d (fragment_name j)) = None"
    using free1 by (simp add: fragment_path_neq)
  from dir mb pos le free show ?thesis by blast
qed



section \<open>Files that save leaves alone\<close>


section \<open>What load reads\<close>

lemma data_pattern_is_name: "''data_*.pkl'' \<noteq> [] \<and> CHR ''/'' \<notin> set ''data_*.pkl''"
  by simp

lemma glob_plain:
  assumes "\<not> has_magic (dirname p)"
  shows "glob_data_pkl os (dirname p) fs
         = map (path_join (dirname p))
             (filter fnmatch_data_pkl
                (case fs (dirname p) of None \<Rightarrow> [] | Some entries \<Rightarrow> scandir os (dirname p)))"
proof -
  have "dirname (path_join (dirname p) ''data_*.pkl'') = dirname p"
    using dirname_path_join [of "''data_*.pkl''" "dirname p"] data_pattern_is_name
    by (simp add: dir_key_dirname)
  with assms show ?thesis by (simp add: glob_data_pkl_def Let_def dir_key_dirname)
qed

lemma read_pickle_name:
  assumes "fs (dir_key d) = Some e" "n \<noteq> []" "CHR ''/'' \<notin> set n" "fs (path_join d n) = None"
  shows "read_pickle (path_join d n) fs
         = (case e n of None \<Rightarrow> Inl FileNotFoundError | Some c \<Rightarrow> Inr c)"
  using assms
  by (simp add: read_pickle_def dirname_path_join basename_path_join dir_key_path_join)

lemma read_pickles_names:
  assumes "fs d = Some e" "dir_key d = d"
    and "\<forall>n\<in>set names. n \<noteq> [] \<and> CHR ''/'' \<notin> set n \<and> fs (path_join d n) = None \<and> n \<in> dom e"
  shows "read_pickles fs (map (path_join d) names) = Inr (map (\<lambda>n. the (e n)) names)"
  using assms(3)
proof (induction names)
  case Nil
  show ?case by simp
next
  case (Cons n names)
  then have n: "n \<noteq> []" "CHR ''/'' \<notin> set n" "fs (path_join d n) = None" "n \<in> dom e" by simp_all
  from n(4) obtain c where c: "e n = Some c" by auto
  have "read_pickle (path_join d n) fs = Inr c"
    using read_pickle_name [of fs d e n] assms(1,2) n c by simp
  with Cons c show ?case by simp
qed

lemma mset_concat_distinct:
  assumes "distinct xs"
  shows "mset (concat (map g xs)) = (\<Sum>x\<in>set xs. mset (g x))"
proof -
  have "mset (concat (map g xs)) = sum_list (map (\<lambda>x. mset (g x)) xs)"
    by (simp add: mset_concat comp_def)
  also have "\<dots> = (\<Sum>x\<in>set xs. mset (g x))"
    using assms by (rule sum_list_distinct_conv_sum_set)
  finally show ?thesis .
qed

text \<open>The matching entries of an enumerated directory, when none of them is a directory.\<close>

lemma matching_entries:
  assumes at: "fs d = Some e" and key: "dir_key d = d"
    and ls: "is_listing fs d names"
    and nodirs: "\<forall>n\<in>set names. fnmatch_data_pkl n \<longrightarrow> fs (path_join d n) = None"
  shows "distinct (filter fnmatch_data_pkl names)"
    and "set (filter fnmatch_data_pkl names) = {n \<in> dom e. fnmatch_data_pkl n \<and> n \<noteq> [] \<and> CHR ''/'' \<notin> set n}"
    and "\<forall>n\<in>set (filter fnmatch_data_pkl names).
           n \<noteq> [] \<and> CHR ''/'' \<notin> set n \<and> fs (path_join d n) = None \<and> n \<in> dom e"
proof -
  from ls at key have d: "distinct names"
    and good: "\<forall>n\<in>set names. n \<noteq> [] \<and> CHR ''/'' \<notin> set n"
    and all: "set names = dom e \<union> subdir_names fs d"
    by (simp_all add: is_listing_def file_names_def)
  show "distinct (filter fnmatch_data_pkl names)" using d by simp
  have sub: "n \<in> dom e" if "n \<in> set names" "fnmatch_data_pkl n" for n
  proof -
    from that nodirs have "fs (path_join d n) = None" by blast
    then have "n \<notin> subdir_names fs d" by (simp add: subdir_names_def)
    with that(1) all show ?thesis by blast
  qed
  show "set (filter fnmatch_data_pkl names)
        = {n \<in> dom e. fnmatch_data_pkl n \<and> n \<noteq> [] \<and> CHR ''/'' \<notin> set n}"
    using all good sub by auto
  show "\<forall>n\<in>set (filter fnmatch_data_pkl names).
          n \<noteq> [] \<and> CHR ''/'' \<notin> set n \<and> fs (path_join d n) = None \<and> n \<in> dom e"
    using good nodirs sub by auto
qed

lemma load_tables:
  assumes at: "fs (dirname p) = Some e" and plain: "\<not> has_magic (dirname p)"
    and ls: "is_listing fs (dirname p) (scandir os (dirname p))"
    and nodirs: "\<forall>n\<in>set (scandir os (dirname p)).
                   fnmatch_data_pkl n \<longrightarrow> fs (path_join (dirname p) n) = None"
  shows "load os p fs
         = pd_concat (map (\<lambda>n. the (e n)) (filter fnmatch_data_pkl (scandir os (dirname p))))"
proof -
  let ?d = "dirname p"
  let ?names = "filter fnmatch_data_pkl (scandir os ?d)"
  have key: "dir_key ?d = ?d" by (rule dir_key_dirname)
  have good: "\<forall>n\<in>set ?names.
      n \<noteq> [] \<and> CHR ''/'' \<notin> set n \<and> fs (path_join ?d n) = None \<and> n \<in> dom e"
    using matching_entries(3) [where fs = fs and d = "?d" and e = e
        and names = "scandir os ?d", OF at key ls nodirs] .
  have "read_pickles fs (map (path_join ?d) ?names) = Inr (map (\<lambda>n. the (e n)) ?names)"
    using read_pickles_names [where fs = fs and d = "?d" and e = e and names = "?names",
        OF at key good] .
  moreover have "glob_data_pkl os ?d fs = map (path_join ?d) ?names"
    using at by (simp add: glob_plain [OF plain])
  ultimately show ?thesis
    by (simp add: load_def Let_def)
qed

lemma load_rows:
  assumes at: "fs (dirname p) = Some e" and plain: "\<not> has_magic (dirname p)"
    and ls: "is_listing fs (dirname p) (scandir os (dirname p))"
    and nodirs: "\<forall>n\<in>set (scandir os (dirname p)).
                   fnmatch_data_pkl n \<longrightarrow> fs (path_join (dirname p) n) = None"
    and some: "filter fnmatch_data_pkl (scandir os (dirname p)) \<noteq> []"
  shows "\<exists>t. load os p fs = Inr t
           \<and> rows t = concat (map (\<lambda>n. rows (the (e n)))
                               (filter fnmatch_data_pkl (scandir os (dirname p))))"
  using some unfolding load_tables [OF at plain ls nodirs]
  by (simp add: pd_concat_def comp_def)

lemma load_glob_empty: "glob_data_pkl os (dirname p) fs = [] \<Longrightarrow> load os p fs = Inl ValueError"
  by (simp add: load_def Let_def pd_concat_def)

lemma fragments_names:
  assumes "fragments fs d = {}" "n \<noteq> []" "CHR ''/'' \<notin> set n" "fnmatch_data_pkl n"
  shows "fs (path_join d n) = None" and "n \<notin> file_names fs d"
  using assms by (auto simp: fragments_def subdir_names_def)

lemma glob_no_fragments:
  assumes plain: "\<not> has_magic (dirname p)"
    and none: "fragments fs (dirname p) = {}"
    and ls: "is_listing fs (dirname p) (scandir os (dirname p))"
  shows "glob_data_pkl os (dirname p) fs = []"
proof (cases "fs (dirname p)")
  case None
  then show ?thesis by (simp add: glob_plain [OF plain])
next
  case (Some e)
  with ls have "set (scandir os (dirname p)) = file_names fs (dirname p) \<union> subdir_names fs (dirname p)"
    by (simp add: is_listing_def dir_key_dirname)
  with none have "\<forall>n\<in>set (scandir os (dirname p)). \<not> fnmatch_data_pkl n"
    by (auto simp: fragments_def)
  with Some show ?thesis by (simp add: glob_plain [OF plain] filter_empty_conv)
qed

lemma subdir_names_upd: "subdir_names (fs(d \<mapsto> e)) d = subdir_names fs d"
  by (auto simp: subdir_names_def path_join_neq(1))

lemma subdir_names_empty: "subdir_names Map.empty d = {}"
  by (simp add: subdir_names_def)

section \<open>Loading a directory without fragments\<close>

lemma dir_key_d: "dir_key ''d'' = ''d''"
  by (simp add: dir_key_def rstrip_sep_def)

lemma dirname_d_x: "dirname ''d/x.pkl'' = ''d''"
  by (simp add: dirname_def rstrip_sep_def)

lemma plain_d: "\<not> has_magic ''d''"
  by (simp add: has_magic_def)

lemma subdir_names_single: "subdir_names [d \<mapsto> e] d = {}"
  using subdir_names_upd [of Map.empty d e] by (simp add: subdir_names_empty)

lemma file_names_d: "file_names [''d'' \<mapsto> e] ''d'' = dom e"
  by (simp add: file_names_def dir_key_d)

lemma glob_d:
  "glob_data_pkl os ''d'' fs
   = map (path_join ''d'')
       (filter fnmatch_data_pkl (case fs ''d'' of None \<Rightarrow> [] | Some entries \<Rightarrow> scandir os ''d''))"
  using glob_plain [of "''d/x.pkl''" os fs] unfolding dirname_d_x by (simp add: plain_d)

lemma path_d_0: "path_join ''d'' ''data_0.pkl'' = ''d/data_0.pkl''"
  by (simp add: path_join_def startswith_def)

lemma path_d_1: "path_join ''d'' ''data_1.pkl'' = ''d/data_1.pkl''"
  by (simp add: path_join_def startswith_def)

lemma read_pickle_d:
  assumes "n \<noteq> []" "CHR ''/'' \<notin> set n"
  shows "read_pickle (path_join ''d'' n) [''d'' \<mapsto> e]
         = (case e n of None \<Rightarrow> Inl FileNotFoundError | Some c \<Rightarrow> Inr c)"
  using read_pickle_name [of "[''d'' \<mapsto> e]" "''d''" e n] assms path_join_neq(1) [OF assms, of "''d''"]
  by (simp add: dir_key_d)

text \<open>
  C4 (as amended): when \<open>glob\<close> finds no fragment, \<open>load\<close> fails with the ValueError that
  the concatenation of no tables raises. That is so for every path whose directory part
  holds no glob character and whose artifact directory has no entry matching
  \<^verbatim>\<open>data_*.pkl\<close>, or does not exist.
\<close>

theorem load_without_fragments:
  "(glob_data_pkl os (dirname p) fs = [] \<longrightarrow> load os p fs = Inl ValueError)
   \<and> (\<not> has_magic (dirname p) \<longrightarrow> fragments fs (dirname p) = {}
        \<longrightarrow> is_listing fs (dirname p) (scandir os (dirname p))
        \<longrightarrow> load os p fs = Inl ValueError)"
  using load_glob_empty [of os p fs] glob_no_fragments [of p fs os] by blast

theorem load_without_fragments_witness:
  "load \<lparr>scandir = (\<lambda>d. [''model.pkl'']), glob_dirs = (\<lambda>pattern. [])\<rparr> ''d/x.pkl''
     [''d'' \<mapsto> [''model.pkl'' \<mapsto> \<lparr>columns = [''a''], rows = [1::nat]\<rparr>]] = Inl ValueError"
proof -
  let ?os = "\<lparr>scandir = (\<lambda>d. [''model.pkl'']), glob_dirs = (\<lambda>pattern. [])\<rparr>"
  let ?fs = "[''d'' \<mapsto> [''model.pkl'' \<mapsto> \<lparr>columns = [''a''], rows = [1::nat]\<rparr>]]"
  have h0: "\<not> has_magic (dirname ''d/x.pkl'')"
    by (simp add: dirname_d_x plain_d)
  have h1: "fragments ?fs (dirname ''d/x.pkl'') = {}"
    unfolding dirname_d_x
    by (auto simp: fragments_def file_names_d subdir_names_single fnmatch_data_pkl_def)
  have h2: "is_listing ?fs (dirname ''d/x.pkl'') (scandir ?os (dirname ''d/x.pkl''))"
    unfolding dirname_d_x
    by (simp add: is_listing_def file_names_d subdir_names_single dir_key_d)
  from load_without_fragments [of ?os "''d/x.pkl''" ?fs] h0 h1 h2 show ?thesis by blast
qed

theorem load_without_fragments_not_NotFound:
  "\<not> has_magic (dirname ''d/x.pkl'')
   \<and> fragments [''d'' \<mapsto> (Map.empty :: nat table dir)] (dirname ''d/x.pkl'') = {}
   \<and> is_listing [''d'' \<mapsto> (Map.empty :: nat table dir)] (dirname ''d/x.pkl'') []
   \<and> load \<lparr>scandir = (\<lambda>d. []), glob_dirs = (\<lambda>pattern. [])\<rparr> ''d/x.pkl''
        [''d'' \<mapsto> (Map.empty :: nat table dir)] = Inl ValueError
   \<and> load \<lparr>scandir = (\<lambda>d. []), glob_dirs = (\<lambda>pattern. [])\<rparr> ''d/x.pkl''
        [''d'' \<mapsto> (Map.empty :: nat table dir)] \<noteq> Inl FileNotFoundError"
  by (simp add: dirname_d_x plain_d fragments_def file_names_d subdir_names_single is_listing_def
      dir_key_d load_def glob_d pd_concat_def)

section \<open>Loading after a save into any directory\<close>

lemma load_after_write:
  assumes at: "fs' (dirname p) = Some e'" and plain: "\<not> has_magic (dirname p)"
    and ls: "is_listing fs' (dirname p) (scandir os (dirname p))"
    and nodirs: "\<forall>n\<in>set (scandir os (dirname p)).
                   fnmatch_data_pkl n \<longrightarrow> fs' (path_join (dirname p) n) = None"
    and kpos: "0 < k"
    and hit: "\<forall>j<k. e' (fragment_name j) = Some (c j)"
    and miss: "\<forall>name. name \<notin> fragment_name ` {..<k} \<longrightarrow> e' name = e0 name"
  shows "\<exists>t. load os p fs' = Inr t
           \<and> rows t = concat (map (\<lambda>n. rows (the (e' n)))
                               (filter fnmatch_data_pkl (scandir os (dirname p))))
           \<and> mset (filter fnmatch_data_pkl (scandir os (dirname p)))
               = mset (map fragment_name [0..<k])
                 + mset_set ({n \<in> dom e0. fnmatch_data_pkl n} - fragment_name ` {..<k})
           \<and> mset (rows t) = mset (concat (map (\<lambda>j. rows (c j)) [0..<k]))
               + (\<Sum>n\<in>{n \<in> dom e0. fnmatch_data_pkl n} - fragment_name ` {..<k}.
                    mset (rows (the (e0 n))))"
proof -
  let ?d = "dirname p"
  let ?listing = "scandir os ?d"
  let ?names = "filter fnmatch_data_pkl ?listing"
  let ?A = "fragment_name ` {..<k}"
  let ?S = "{n \<in> dom e0. fnmatch_data_pkl n} - ?A"
  let ?g = "\<lambda>n. rows (the (e' n))"
  have key: "dir_key ?d = ?d" by (rule dir_key_dirname)
  have dist: "distinct ?names" using ls by (simp add: is_listing_def)
  have all: "set ?listing = dom e' \<union> subdir_names fs' ?d"
    using ls at by (simp add: is_listing_def file_names_def key)
  have good: "\<forall>n\<in>set ?names.
      n \<noteq> [] \<and> CHR ''/'' \<notin> set n \<and> fs' (path_join ?d n) = None \<and> n \<in> dom e'"
    using matching_entries(3) [where fs = fs' and d = "?d" and e = e'
        and names = ?listing, OF at key ls nodirs] .
  have "set ?names = {n \<in> dom e'. fnmatch_data_pkl n}"
    using good all by auto
  also have "\<dots> = ?A \<union> ?S"
  proof (intro set_eqI iffI)
    fix n assume "n \<in> {n \<in> dom e'. fnmatch_data_pkl n}"
    then show "n \<in> ?A \<union> ?S" using miss by (cases "n \<in> ?A") auto
  next
    fix n assume n: "n \<in> ?A \<union> ?S"
    show "n \<in> {n \<in> dom e'. fnmatch_data_pkl n}"
    proof (cases "n \<in> ?A")
      case True
      then show ?thesis using hit by (auto simp: fnmatch_fragment_name)
    next
      case False
      with n miss show ?thesis by auto
    qed
  qed
  finally have names: "set ?names = ?A \<union> ?S" .
  have finS: "finite ?S"
  proof (rule finite_subset)
    show "?S \<subseteq> set ?names" unfolding names by blast
  qed simp
  have nonempty: "?names \<noteq> []"
  proof
    assume "?names = []"
    then have "set ?names = {}" by simp
    with names kpos show False by auto
  qed
  from load_rows [where fs = fs' and e = e' and p = p and os = os,
      OF at plain ls nodirs nonempty] obtain t where
    t: "load os p fs' = Inr t" and rows_t: "rows t = concat (map ?g ?names)"
    by blast
  have dA: "distinct (map fragment_name [0..<k])"
    by (simp add: distinct_map inj_on_def fragment_name_inj)
  have "mset ?names = mset_set (set ?names)"
    by (rule mset_set_set [OF dist, symmetric])
  also have "\<dots> = mset_set ?A + mset_set ?S"
    unfolding names by (rule mset_set_Union) (use finS in auto)
  also have "mset_set ?A = mset (map fragment_name [0..<k])"
    using dA mset_set_set [of "map fragment_name [0..<k]"] by (simp add: lessThan_atLeast0)
  finally have ms: "mset ?names = mset (map fragment_name [0..<k]) + mset_set ?S" .
  have "mset (rows t) = (\<Sum>n\<in>set ?names. mset (?g n))"
    unfolding rows_t by (rule mset_concat_distinct [OF dist])
  also have "\<dots> = (\<Sum>n\<in>?A. mset (?g n)) + (\<Sum>n\<in>?S. mset (?g n))"
    unfolding names by (rule sum.union_disjoint) (use finS in auto)
  also have "(\<Sum>n\<in>?A. mset (?g n)) = (\<Sum>j\<in>{..<k}. mset (rows (c j)))"
  proof -
    have "(\<Sum>n\<in>?A. mset (?g n)) = (\<Sum>j\<in>{..<k}. mset (?g (fragment_name j)))"
      by (subst sum.reindex) (simp_all add: inj_on_def fragment_name_inj)
    also have "\<dots> = (\<Sum>j\<in>{..<k}. mset (rows (c j)))"
      using hit by simp
    finally show ?thesis .
  qed
  also have "(\<Sum>j\<in>{..<k}. mset (rows (c j))) = mset (concat (map (\<lambda>j. rows (c j)) [0..<k]))"
    using mset_concat_distinct [of "[0..<k]" "\<lambda>j. rows (c j)"] by (simp add: lessThan_atLeast0)
  also have "(\<Sum>n\<in>?S. mset (?g n)) = (\<Sum>n\<in>?S. mset (rows (the (e0 n))))"
    using miss by (intro sum.cong) auto
  finally show ?thesis using t rows_t ms by blast
qed

text \<open>
  After a save that returned normally the entries matching \<^verbatim>\<open>data_*.pkl\<close> that were
  not directories before are not directories now.
\<close>

lemma nodirs_after:
  assumes fs': "fs' = fs(dirname p \<mapsto> e')"
    and ls: "is_listing fs' (dirname p) listing"
    and before: "\<forall>n. n \<noteq> [] \<and> CHR ''/'' \<notin> set n \<and> fnmatch_data_pkl n
                   \<longrightarrow> fs (path_join (dirname p) n) = None"
  shows "\<forall>n\<in>set listing. fnmatch_data_pkl n \<longrightarrow> fs' (path_join (dirname p) n) = None"
proof (intro ballI impI)
  fix n assume n: "n \<in> set listing" and m: "fnmatch_data_pkl n"
  from ls n have wf: "n \<noteq> []" "CHR ''/'' \<notin> set n" by (simp_all add: is_listing_def)
  with m before have "fs (path_join (dirname p) n) = None" by blast
  with path_join_neq(1) [OF wf, of "dirname p"] show "fs' (path_join (dirname p) n) = None"
    by (simp add: fs')
qed

section \<open>Saving and loading again\<close>

lemma concat_fragments:
  assumes "0 < k" "\<forall>j<k. e' (fragment_name j) = Some (chunk df k j)"
  shows "concat (map (\<lambda>n. rows (the (e' n))) (map fragment_name [0..<k])) = rows df"
proof -
  have eq: "map (\<lambda>n. rows (the (e' n))) (map fragment_name [0..<k])
        = map (\<lambda>i. rows (chunk df k i)) [0..<k]"
    using assms(2) by simp
  show ?thesis unfolding eq by (rule concat_chunks [OF assms(1)])
qed

lemma fragments_none:
  assumes "fragments fs (dirname p) = {}"
  shows "{n \<in> dom (\<lambda>name. case fs (dirname p) of None \<Rightarrow> None | Some e \<Rightarrow> e name).
            fnmatch_data_pkl n} = {}"
    and "\<forall>n. n \<noteq> [] \<and> CHR ''/'' \<notin> set n \<and> fnmatch_data_pkl n
           \<longrightarrow> fs (path_join (dirname p) n) = None"
  using assms
  by (auto simp: fragments_def file_names_def subdir_names_def dir_key_dirname split: option.splits)

text \<open>
  C1 (as amended): let the directory part of the path hold no glob character and the
  artifact directory no entry matching \<^verbatim>\<open>data_*.pkl\<close>. When \<open>save\<close> of a non-empty
  table returns normally, \<open>load\<close> returns a table with the same number of rows and the
  same rows as a multiset. Its rows are those of the fragments \<open>data_0, ..., data_(k-1)\<close>
  in the order in which the directory is enumerated; when that order is ascending the
  rows come back in the order in which they were saved.
\<close>

theorem save_load_roundtrip:
  assumes ne: "\<not> df_empty df"
    and plain: "\<not> has_magic (dirname p)"
    and fresh: "fragments fs (dirname p) = {}"
    and ok: "fst (save max_byte nbytes df p fs) = Inr ()"
    and ls: "is_listing (snd (save max_byte nbytes df p fs)) (dirname p) (scandir os (dirname p))"
  shows "\<exists>t. load os p (snd (save max_byte nbytes df p fs)) = Inr t
           \<and> length (rows t) = length (rows df)
           \<and> mset (rows t) = mset (rows df)
           \<and> rows t = concat (map (\<lambda>name. rows (the (the (snd (save max_byte nbytes df p fs) (dirname p)) name)))
                                (filter fnmatch_data_pkl (scandir os (dirname p))))
           \<and> mset (filter fnmatch_data_pkl (scandir os (dirname p)))
               = mset (map fragment_name [0..<nat (int (nbytes df) div max_byte + 1)])
           \<and> (filter fnmatch_data_pkl (scandir os (dirname p))
                 = map fragment_name [0..<nat (int (nbytes df) div max_byte + 1)]
               \<longrightarrow> rows t = rows df)"
proof -
  let ?d = "dirname p"
  let ?fs' = "snd (save max_byte nbytes df p fs)"
  let ?k = "nat (int (nbytes df) div max_byte + 1)"
  let ?names = "filter fnmatch_data_pkl (scandir os ?d)"
  let ?e0 = "\<lambda>name. case fs ?d of None \<Rightarrow> None | Some e \<Rightarrow> e name"
  from ok have run: "save max_byte nbytes df p fs = (Inr (), ?fs')"
    by (simp add: prod_eq_iff)
  from save_nonempty_Inr [OF run ne] have dir: "creatable fs ?d" and mb: "max_byte \<noteq> 0"
    and pos: "0 < int (nbytes df) div max_byte + 1" and le: "?k \<le> length (rows df)"
    and free: "\<forall>j<?k. fs (path_join ?d (fragment_name j)) = None"
    by simp_all
  from pos have kpos: "0 < ?k" by simp
  from save_nonempty [where k = ?k and fs = fs and df = df and p = p
      and max_byte = max_byte and nbytes = nbytes, OF ne dir mb pos refl le free] run obtain e' where
    fs': "?fs' = fs(?d \<mapsto> e')"
    and hit: "\<forall>j<?k. e' (fragment_name j) = Some (chunk df ?k j)"
    and miss: "\<forall>name. name \<notin> fragment_name ` {..<?k} \<longrightarrow> e' name = ?e0 name"
    by auto
  have at: "?fs' ?d = Some e'" by (subst fs') simp
  have nodirs: "\<forall>n\<in>set (scandir os ?d). fnmatch_data_pkl n \<longrightarrow> ?fs' (path_join ?d n) = None"
    using nodirs_after [where fs' = ?fs' and fs = fs and p = p and e' = e'
        and listing = "scandir os ?d", OF fs' ls fragments_none(2) [OF fresh]] .
  from load_after_write [where fs' = ?fs' and p = p and os = os and e' = e' and k = ?k
      and c = "chunk df ?k" and ?e0.0 = ?e0, OF at plain ls nodirs kpos hit miss]
  obtain t where t: "load os p ?fs' = Inr t"
    and rows_t: "rows t = concat (map (\<lambda>n. rows (the (e' n))) ?names)"
    and ms: "mset ?names = mset (map fragment_name [0..<?k])"
    and m0: "mset (rows t) = mset (concat (map (\<lambda>j. rows (chunk df ?k j)) [0..<?k]))"
    unfolding fragments_none(1) [OF fresh] by auto
  have m: "mset (rows t) = mset (rows df)"
    using m0 by (simp add: concat_chunks [OF kpos])
  then have l: "length (rows t) = length (rows df)"
    by (rule mset_eq_length)
  have asc: "concat (map (\<lambda>n. rows (the (e' n))) (map fragment_name [0..<?k])) = rows df"
    by (rule concat_fragments [OF kpos hit])
  have ord: "rows t = rows df" if "?names = map fragment_name [0..<?k]"
    using rows_t asc that by simp
  from t l m rows_t ms ord at show ?thesis by simp
qed

section \<open>A table of two rows, saved and loaded\<close>

lemma makedirs_empty:
  "d \<noteq> [] \<Longrightarrow> dir_key d = d \<Longrightarrow> makedirs d Map.empty = (Inr (), [d \<mapsto> Map.empty])"
  by (simp add: makedirs_def is_file_def)


lemma to_pickle_single:
  assumes "dir_key d = d" "n \<noteq> []" "CHR ''/'' \<notin> set n"
  shows "to_pickle c (path_join d n) [d \<mapsto> e] = (Inr (), [d \<mapsto> e(n \<mapsto> c)])"
  using to_pickle_name [of "[d \<mapsto> e]" d e n c] assms path_join_neq(1) [OF assms(2,3), of d]
  by simp

lemma read_pickle_single:
  assumes "dir_key d = d" "n \<noteq> []" "CHR ''/'' \<notin> set n"
  shows "read_pickle (path_join d n) [d \<mapsto> e]
         = (case e n of None \<Rightarrow> Inl FileNotFoundError | Some c \<Rightarrow> Inr c)"
  using read_pickle_name [of "[d \<mapsto> e]" d e n] assms path_join_neq(1) [OF assms(2,3), of d]
  by simp

lemma array_split_2_2: "array_split (Suc (Suc 0)) 2 = Inr [[0], [1]]"
  by code_simp

lemma save_two_rows:
  "save 10 (\<lambda>t. 8 * length (rows t) * length (columns t)) \<lparr>columns = [''a''], rows = [10, 20 :: nat]\<rparr>
     ''d/x.pkl'' Map.empty
   = (Inr (), [''d'' \<mapsto> [''data_0.pkl'' \<mapsto> \<lparr>columns = [''a''], rows = [10]\<rparr>,
                            ''data_1.pkl'' \<mapsto> \<lparr>columns = [''a''], rows = [20]\<rparr>]])"
  by (simp add: save_def Let_def dirname_d_x makedirs_empty dir_key_d df_empty_def array_split_2_2
      to_pickle_single iloc_def fragment_name_0 fragment_name_1)

theorem save_load_roundtrip_witness:
  "\<exists>t. load \<lparr>scandir = (\<lambda>d. [''data_0.pkl'', ''data_1.pkl'']), glob_dirs = (\<lambda>pattern. [])\<rparr>
         ''d/x.pkl''
         (snd (save 10 (\<lambda>t. 8 * length (rows t) * length (columns t))
                 \<lparr>columns = [''a''], rows = [10, 20 :: nat]\<rparr> ''d/x.pkl'' Map.empty)) = Inr t
       \<and> rows t = [10, 20]"
proof -
  let ?nb = "\<lambda>t :: nat table. 8 * length (rows t) * length (columns t)"
  let ?df = "\<lparr>columns = [''a''], rows = [10, 20 :: nat]\<rparr>"
  let ?os = "\<lparr>scandir = (\<lambda>d. [''data_0.pkl'', ''data_1.pkl'']), glob_dirs = (\<lambda>pattern. [])\<rparr>"
  have h1: "\<not> df_empty ?df" by (simp add: df_empty_def)
  have h0: "\<not> has_magic (dirname ''d/x.pkl'')" by (simp add: dirname_d_x plain_d)
  have h2: "fragments (Map.empty :: nat table fs) (dirname ''d/x.pkl'') = {}"
    by (simp add: fragments_def file_names_def subdir_names_empty)
  have h3: "fst (save 10 ?nb ?df ''d/x.pkl'' Map.empty) = Inr ()"
    by (simp add: save_two_rows)
  have h4: "is_listing (snd (save 10 ?nb ?df ''d/x.pkl'' Map.empty)) (dirname ''d/x.pkl'')
              (scandir ?os (dirname ''d/x.pkl''))"
    by (auto simp: save_two_rows dirname_d_x is_listing_def dir_key_d file_names_d
        subdir_names_single)
  have asc: "filter fnmatch_data_pkl (scandir ?os (dirname ''d/x.pkl''))
               = map fragment_name [0..<nat (int (?nb ?df) div 10 + 1)]"
    by (simp add: fnmatch_data_pkl_def fragment_name_0 fragment_name_1 upt_rec)
  from save_load_roundtrip [OF h1 h0 h2 h3 h4] asc show ?thesis by auto
qed

theorem load_order_counterexample:
  "\<not> df_empty \<lparr>columns = [''a''], rows = [10, 20 :: nat]\<rparr>
   \<and> \<not> has_magic (dirname ''d/x.pkl'')
   \<and> fragments (Map.empty :: nat table fs) (dirname ''d/x.pkl'') = {}
   \<and> fst (save 10 (\<lambda>t. 8 * length (rows t) * length (columns t))
              \<lparr>columns = [''a''], rows = [10, 20 :: nat]\<rparr> ''d/x.pkl'' Map.empty) = Inr ()
   \<and> is_listing (snd (save 10 (\<lambda>t. 8 * length (rows t) * length (columns t))
                          \<lparr>columns = [''a''], rows = [10, 20 :: nat]\<rparr> ''d/x.pkl'' Map.empty))
         (dirname ''d/x.pkl'') [''data_1.pkl'', ''data_0.pkl'']
   \<and> load \<lparr>scandir = (\<lambda>d. [''data_1.pkl'', ''data_0.pkl'']), glob_dirs = (\<lambda>pattern. [])\<rparr>
         ''d/x.pkl''
         (snd (save 10 (\<lambda>t. 8 * length (rows t) * length (columns t))
                 \<lparr>columns = [''a''], rows = [10, 20 :: nat]\<rparr> ''d/x.pkl'' Map.empty))
       = Inr \<lparr>columns = [''a''], rows = [20, 10]\<rparr>"
  by (auto simp: save_two_rows dirname_d_x plain_d df_empty_def fragments_def file_names_def
      file_names_d subdir_names_empty subdir_names_single is_listing_def dir_key_d load_def glob_d
      fnmatch_data_pkl_def read_pickle_single pd_concat_def)

section \<open>More sections than rows\<close>

lemma array_split_1_4: "array_split (Suc 0) 4 = Inr [[0], [], [], []]"
  by code_simp

text \<open>
  C2: a table of one row whose footprint is 32 bytes, saved with \<open>max_byte = 10\<close>, has
  \<open>32 div 10 + 1 = 4\<close> sections, three of them empty. \<open>save\<close> writes \<open>data_0.pkl\<close>
  and raises IndexError on the first empty section, so one fragment file exists, not four.
\<close>

theorem save_one_row_four_sections:
  "save 10 (\<lambda>t. 8 * length (rows t) * length (columns t))
     \<lparr>columns = [''a'', ''b'', ''c'', ''d''], rows = [7 :: nat]\<rparr> ''d/x.pkl'' Map.empty
   = (Inl IndexError,
      [''d'' \<mapsto> [''data_0.pkl'' \<mapsto> \<lparr>columns = [''a'', ''b'', ''c'', ''d''], rows = [7]\<rparr>]])"
  by (simp add: save_def Let_def dirname_d_x makedirs_empty dir_key_d df_empty_def array_split_1_4
      to_pickle_single iloc_def fragment_name_0)

text \<open>
  When the table has at least as many rows as sections, \<open>save\<close> returns normally and the
  fragments \<open>data_0, ..., data_(k-1)\<close> hold the sections, contiguous and in order.
\<close>

lemma save_writes_chunk_count:
  assumes "\<not> df_empty df" "creatable fs (dirname p)" "0 < max_byte"
    and "k = nat (int (nbytes df) div max_byte + 1)" "k \<le> length (rows df)"
    and "fragments fs (dirname p) = {}"
  shows "fst (save max_byte nbytes df p fs) = Inr ()"
    and "fragments (snd (save max_byte nbytes df p fs)) (dirname p) = fragment_name ` {..<k}"
    and "card (fragments (snd (save max_byte nbytes df p fs)) (dirname p)) = k"
    and "\<forall>j<k. \<exists>e'. snd (save max_byte nbytes df p fs) (dirname p) = Some e'
                  \<and> e' (fragment_name j) = Some (chunk df k j)"
    and "concat (map (\<lambda>j. rows (chunk df k j)) [0..<k]) = rows df"
proof -
  let ?d = "dirname p"
  let ?e0 = "\<lambda>name. case fs ?d of None \<Rightarrow> None | Some e \<Rightarrow> e name"
  have pos: "0 < int (nbytes df) div max_byte + 1"
    using assms(3) by (simp add: pos_imp_zdiv_nonneg_iff add_pos_nonneg)
  then have kpos: "0 < k" using assms(4) by simp
  from assms(3) have mb: "max_byte \<noteq> 0" by simp
  note none = fragments_none [OF assms(6)]
  have free: "\<forall>j<k. fs (path_join ?d (fragment_name j)) = None"
    using none(2) fragment_name_is_name fnmatch_fragment_name by blast
  from save_nonempty [where k = k and fs = fs and df = df and p = p
      and max_byte = max_byte and nbytes = nbytes, OF assms(1,2) mb pos assms(4,5) free]
  obtain e' where
    run: "save max_byte nbytes df p fs = (Inr (), fs(?d \<mapsto> e'))"
    and hit: "\<forall>j<k. e' (fragment_name j) = Some (chunk df k j)"
    and miss: "\<forall>name. name \<notin> fragment_name ` {..<k} \<longrightarrow> e' name = ?e0 name"
    by blast
  show "fst (save max_byte nbytes df p fs) = Inr ()" using run by simp
  have files: "{n \<in> dom e'. fnmatch_data_pkl n} = fragment_name ` {..<k}"
  proof (intro set_eqI iffI)
    fix n assume n: "n \<in> {n \<in> dom e'. fnmatch_data_pkl n}"
    show "n \<in> fragment_name ` {..<k}"
    proof (rule ccontr)
      assume out: "n \<notin> fragment_name ` {..<k}"
      with miss have "e' n = ?e0 n" by blast
      moreover from n obtain y where "e' n = Some y" and "fnmatch_data_pkl n" by auto
      ultimately have "?e0 n = Some y" by simp
      with \<open>fnmatch_data_pkl n\<close> have "n \<in> {n \<in> dom ?e0. fnmatch_data_pkl n}"
        by (simp add: domIff)
      with none(1) show False by blast
    qed
  next
    fix n assume "n \<in> fragment_name ` {..<k}"
    then show "n \<in> {n \<in> dom e'. fnmatch_data_pkl n}"
      using hit by (auto simp: fnmatch_fragment_name)
  qed
  have dirs: "{n \<in> subdir_names (fs(?d \<mapsto> e')) ?d. fnmatch_data_pkl n} = {}"
    unfolding subdir_names_upd using none(2) by (auto simp: subdir_names_def)
  have "fragments (fs(?d \<mapsto> e')) ?d
        = {n \<in> dom e'. fnmatch_data_pkl n} \<union> {n \<in> subdir_names (fs(?d \<mapsto> e')) ?d. fnmatch_data_pkl n}"
    by (auto simp: fragments_def file_names_def dir_key_dirname)
  then show fr: "fragments (snd (save max_byte nbytes df p fs)) ?d = fragment_name ` {..<k}"
    using run files dirs by simp
  have "card (fragment_name ` {..<k}) = k"
    by (simp add: card_image inj_on_def fragment_name_inj)
  with fr show "card (fragments (snd (save max_byte nbytes df p fs)) ?d) = k" by simp
  show "\<forall>j<k. \<exists>e'. snd (save max_byte nbytes df p fs) ?d = Some e'
                  \<and> e' (fragment_name j) = Some (chunk df k j)"
    using run hit by simp
  show "concat (map (\<lambda>j. rows (chunk df k j)) [0..<k]) = rows df"
    by (rule concat_chunks [OF kpos])
qed

section \<open>Saving an empty table\<close>







section \<open>Fragments left by an earlier save\<close>










section \<open>Final paths of targets\<close>

lemma rfind_split:
  assumes "c \<in> set p"
  shows "\<exists>pre post. p = pre @ c # post \<and> c \<notin> set post \<and> rfind c p = int (length pre)"
proof -
  let ?t = "takeWhile (\<lambda>x. x \<noteq> c) (rev p)"
  let ?d = "dropWhile (\<lambda>x. x \<noteq> c) (rev p)"
  from assms have "c \<in> set (rev p)" by simp
  then have "?d \<noteq> []" by (auto simp: dropWhile_eq_Nil_conv)
  then obtain r where d: "?d = c # r"
    using hd_dropWhile [of "\<lambda>x. x \<noteq> c" "rev p"] by (cases ?d) auto
  have "rev p = ?t @ c # r" using takeWhile_dropWhile_id [of "\<lambda>x. x \<noteq> c" "rev p"] d by simp
  then have "rev (rev p) = rev (?t @ c # r)" by simp
  then have p: "p = rev r @ c # rev ?t" by simp
  have notin: "c \<notin> set (rev ?t)" by (auto dest: set_takeWhileD)
  have "length p = length r + 1 + length ?t" by (subst p) simp
  then have "rfind c p = int (length (rev r))" using assms by (simp add: rfind_def)
  with p notin show ?thesis by blast
qed

lemma rfind_absent: "c \<notin> set p \<Longrightarrow> rfind c p = - 1"
  by (simp add: rfind_def)

lemma rfind_last:
  assumes "c \<notin> set b"
  shows "rfind c (a @ c # b) = int (length a)"
proof -
  have "takeWhile (\<lambda>x. x \<noteq> c) (rev b @ c # rev a) = rev b"
    using assms by (subst takeWhile_append2) auto
  then show ?thesis by (simp add: rfind_def)
qed

lemma rfind_ge: "- 1 \<le> rfind c p"
proof (cases "c \<in> set p")
  case True
  from rfind_split [OF this] show ?thesis by auto
next
  case False
  then show ?thesis by (simp add: rfind_absent)
qed

text \<open>The last slash of a path whose directory part \<open>d\<close> is all up to that slash.\<close>

lemma rfind_sep:
  assumes "d = [] \<or> last d = CHR ''/''" "CHR ''/'' \<notin> set name"
  shows "rfind CHR ''/'' (d @ name) = int (length d) - 1"
proof (cases "d = []")
  case True
  with assms(2) show ?thesis by (simp add: rfind_absent)
next
  case False
  with assms(1) obtain d' where dd: "d = d' @ [CHR ''/'']"
    by (metis append_butlast_last_id)
  have "rfind CHR ''/'' (d' @ CHR ''/'' # name) = int (length d')"
    using assms(2) by (rule rfind_last)
  then show ?thesis unfolding dd by simp
qed

lemma splitext_loop_cases:
  "splitext_loop p i d = (p, []) \<or> splitext_loop p i d = (take d p, drop d p)"
proof (induction p i d rule: splitext_loop.induct)
  case (1 p filenameIndex dotIndex)
  then show ?case by (subst (1 2) splitext_loop.simps) auto
qed

text \<open>What the loop returns: the cut at the dot exactly when a character before it is no dot.\<close>

lemma splitext_loop_exact:
  "splitext_loop p i d
   = (if \<exists>j. i \<le> j \<and> j < d \<and> take 1 (drop j p) \<noteq> ''.'' then (take d p, drop d p) else (p, []))"
proof (induction p i d rule: splitext_loop.induct)
  case (1 p i d)
  show ?case
  proof (cases "i < d")
    case False
    then have none: "\<not> (\<exists>j. i \<le> j \<and> j < d \<and> take 1 (drop j p) \<noteq> ''.'')" by auto
    have "splitext_loop p i d = (p, [])"
      using False by (subst splitext_loop.simps) simp
    then show ?thesis unfolding if_not_P [OF none] .
  next
    case lt: True
    show ?thesis
    proof (cases "take 1 (drop i p) \<noteq> ''.''")
      case True
      with lt have "\<exists>j. i \<le> j \<and> j < d \<and> take 1 (drop j p) \<noteq> ''.''" by blast
      with lt True show ?thesis by (subst splitext_loop.simps) simp
    next
      case False
      have "(\<exists>j. i \<le> j \<and> j < d \<and> take 1 (drop j p) \<noteq> ''.'')
            \<longleftrightarrow> (\<exists>j. i + 1 \<le> j \<and> j < d \<and> take 1 (drop j p) \<noteq> ''.'')"
      proof
        assume "\<exists>j. i \<le> j \<and> j < d \<and> take 1 (drop j p) \<noteq> ''.''"
        then obtain j where j: "i \<le> j" "j < d" "take 1 (drop j p) \<noteq> ''.''" by blast
        with False have "j \<noteq> i" by auto
        with j show "\<exists>j. i + 1 \<le> j \<and> j < d \<and> take 1 (drop j p) \<noteq> ''.''"
          by (intro exI [of _ j]) simp
      next
        assume "\<exists>j. i + 1 \<le> j \<and> j < d \<and> take 1 (drop j p) \<noteq> ''.''"
        then obtain j where "i + 1 \<le> j" "j < d" "take 1 (drop j p) \<noteq> ''.''" by blast
        then show "\<exists>j. i \<le> j \<and> j < d \<and> take 1 (drop j p) \<noteq> ''.''"
          by (intro exI [of _ j]) simp
      qed
      with 1 [OF lt] False lt show ?thesis by (subst splitext_loop.simps) simp
    qed
  qed
qed

text \<open>A file name with a dot: the extension starts at the last dot unless only dots precede it.\<close>

lemma splitext_dot:
  assumes d: "d = [] \<or> last d = CHR ''/''"
    and pre: "CHR ''/'' \<notin> set pre" and rest: "CHR ''/'' \<notin> set rest" "CHR ''.'' \<notin> set rest"
  shows "splitext (d @ pre @ CHR ''.'' # rest)
         = (if \<exists>c\<in>set pre. c \<noteq> CHR ''.'' then (d @ pre, CHR ''.'' # rest)
            else (d @ pre @ CHR ''.'' # rest, []))"
proof -
  let ?p = "d @ pre @ CHR ''.'' # rest"
  have "CHR ''/'' \<notin> set (pre @ CHR ''.'' # rest)" using pre rest(1) by simp
  from rfind_sep [OF d this] have sep: "rfind CHR ''/'' ?p = int (length d) - 1" .
  have "rfind CHR ''.'' ((d @ pre) @ CHR ''.'' # rest) = int (length (d @ pre))"
    using rest(2) by (rule rfind_last)
  then have dot: "rfind CHR ''.'' ?p = int (length d + length pre)" by simp
  have run: "splitext ?p = splitext_loop ?p (length d) (length d + length pre)"
    unfolding splitext_def Let_def sep dot by (simp add: nat_add_distrib)
  have td: "take (length d + length pre) ?p = d @ pre"
    "drop (length d + length pre) ?p = CHR ''.'' # rest"
    by simp_all
  have "(\<exists>j. length d \<le> j \<and> j < length d + length pre \<and> take 1 (drop j ?p) \<noteq> ''.'')
        \<longleftrightarrow> (\<exists>c\<in>set pre. c \<noteq> CHR ''.'')"
  proof
    assume "\<exists>j. length d \<le> j \<and> j < length d + length pre \<and> take 1 (drop j ?p) \<noteq> ''.''"
    then obtain j where j: "length d \<le> j" "j < length d + length pre"
      and nd: "take 1 (drop j ?p) \<noteq> ''.''" by blast
    let ?i = "j - length d"
    from j have i: "?i < length pre" by simp
    have "drop j ?p = drop ?i (pre @ CHR ''.'' # rest)" using j by simp
    also have "\<dots> = drop ?i pre @ CHR ''.'' # rest" using i by simp
    also have "drop ?i pre = pre ! ?i # drop (Suc ?i) pre"
      using i by (rule Cons_nth_drop_Suc [symmetric])
    finally have "take 1 (drop j ?p) = [pre ! ?i]" by simp
    with nd have "pre ! ?i \<noteq> CHR ''.''" by simp
    with i show "\<exists>c\<in>set pre. c \<noteq> CHR ''.''" using nth_mem by blast
  next
    assume "\<exists>c\<in>set pre. c \<noteq> CHR ''.''"
    then obtain i where i: "i < length pre" and c: "pre ! i \<noteq> CHR ''.''"
      by (auto simp: in_set_conv_nth)
    have "drop (length d + i) ?p = drop i (pre @ CHR ''.'' # rest)" by simp
    also have "\<dots> = drop i pre @ CHR ''.'' # rest" using i by simp
    also have "drop i pre = pre ! i # drop (Suc i) pre"
      using i by (rule Cons_nth_drop_Suc [symmetric])
    finally have "take 1 (drop (length d + i) ?p) = [pre ! i]" by simp
    with c have "take 1 (drop (length d + i) ?p) \<noteq> ''.''" by simp
    with i show "\<exists>j. length d \<le> j \<and> j < length d + length pre \<and> take 1 (drop j ?p) \<noteq> ''.''"
      by (intro exI [of _ "length d + i"]) simp
  qed
  then show ?thesis
    unfolding run splitext_loop_exact td by simp
qed

text \<open>A file name without a dot has no extension, whatever the directory part holds.\<close>

lemma splitext_nodot:
  assumes d: "d = [] \<or> last d = CHR ''/''"
    and name: "CHR ''/'' \<notin> set name" "CHR ''.'' \<notin> set name"
  shows "splitext (d @ name) = (d @ name, [])"
proof -
  let ?p = "d @ name"
  from rfind_sep [OF d name(1)] have sep: "rfind CHR ''/'' ?p = int (length d) - 1" .
  have "rfind CHR ''.'' ?p \<le> rfind CHR ''/'' ?p"
  proof (cases "CHR ''.'' \<in> set d")
    case False
    with name(2) have "rfind CHR ''.'' ?p = - 1" by (simp add: rfind_absent)
    with rfind_ge [of "CHR ''/''" ?p] show ?thesis by simp
  next
    case True
    from rfind_split [OF True] obtain a b where ab: "d = a @ CHR ''.'' # b"
      and nb: "CHR ''.'' \<notin> set b" by blast
    from ab d have "last (CHR ''.'' # b) = CHR ''/''" by simp
    then have "b \<noteq> []" by auto
    have "CHR ''.'' \<notin> set (b @ name)" using nb name(2) by simp
    from rfind_last [OF this, of a] have "rfind CHR ''.'' ?p = int (length a)"
      by (simp add: ab)
    with sep ab \<open>b \<noteq> []\<close> show ?thesis by (cases b) simp_all
  qed
  then show ?thesis by (simp add: splitext_def Let_def)
qed

lemma splitext_cases:
  "splitext p = (p, [])
   \<or> (\<exists>base rest. p = base @ CHR ''.'' # rest \<and> CHR ''.'' \<notin> set rest \<and> CHR ''/'' \<notin> set rest
         \<and> splitext p = (base, CHR ''.'' # rest))"
proof (cases "rfind CHR ''.'' p > rfind CHR ''/'' p")
  case False
  then show ?thesis by (simp add: splitext_def Let_def)
next
  case True
  have dot: "CHR ''.'' \<in> set p"
  proof (rule ccontr)
    assume "CHR ''.'' \<notin> set p"
    then have "rfind CHR ''.'' p = - 1" by (rule rfind_absent)
    with rfind_ge [of "CHR ''/''" p] True show False by simp
  qed
  from rfind_split [OF dot] obtain base rest where
    p: "p = base @ CHR ''.'' # rest" and nodot: "CHR ''.'' \<notin> set rest"
    and idx: "rfind CHR ''.'' p = int (length base)" by blast
  have nosep: "CHR ''/'' \<notin> set rest"
  proof
    assume "CHR ''/'' \<in> set rest"
    then have "CHR ''/'' \<in> set p" by (subst p) simp
    from rfind_split [OF this] obtain pre post where
      p': "p = pre @ CHR ''/'' # post" and ns: "CHR ''/'' \<notin> set post"
      and si: "rfind CHR ''/'' p = int (length pre)" by blast
    from True idx si have lt: "length pre < length base" by simp
    have post: "post = drop (Suc (length pre)) p" by (subst p') simp
    have rest: "rest = drop (Suc (length base)) p" by (subst p) simp
    have "Suc (length base) = (length base - length pre) + Suc (length pre)" using lt by simp
    then have "rest = drop (length base - length pre) post"
      unfolding rest post by (simp only: drop_drop)
    then have "set rest \<subseteq> set post" using set_drop_subset by metis
    with ns \<open>CHR ''/'' \<in> set rest\<close> show False by blast
  qed
  have td: "take (length base) p = base" "drop (length base) p = CHR ''.'' # rest"
    by (simp_all add: p)
  let ?i = "nat (rfind CHR ''/'' p + 1)"
  have "splitext p = splitext_loop p ?i (length base)"
    using True idx by (simp add: splitext_def Let_def)
  with splitext_loop_cases [of p ?i "length base"] td
  have "splitext p = (p, []) \<or> splitext p = (base, CHR ''.'' # rest)" by simp
  with p nodot nosep show ?thesis by blast
qed

lemma splitext_concat: "splitext p = (base, ext) \<Longrightarrow> base @ ext = p"
  using splitext_cases [of p] by auto

lemma make_target_path:
  "make_target env p uid processor lock sif = Inr t \<Longrightarrow> sft_path t = make_file_path p uid"
  by (auto simp: make_target_def make_file_system_target_def Let_def sft_path_def
      split: option.splits sum.splits if_splits)

text \<open>
  C8: without a run identifier the path is unchanged. With one, the identifier (after an
  underscore) goes between the two parts into which \<open>splitext\<close> cuts the path, and the
  result differs from the path itself. The cut is before the last dot of the file name
  when a character other than a dot precedes that dot in the file name; a file name
  without a dot, or with dots only before its last dot, is not cut and the identifier goes
  to the end of the path. A target that \<open>make_target\<close> returns has that final path,
  whatever the processor, the lock scope and the other collaborators are, so with and
  without a run identifier the final paths differ, and two calls on the same path and run
  identifier give the same final path.
\<close>

theorem make_target_final_path:
  "make_file_path p None = p
   \<and> (\<exists>base ext. splitext p = (base, ext) \<and> base @ ext = p
          \<and> (ext = [] \<or> (\<exists>rest. ext = CHR ''.'' # rest \<and> CHR ''.'' \<notin> set rest
                                 \<and> CHR ''/'' \<notin> set rest))
          \<and> make_file_path p (Some uid) = base @ ''_'' @ uid @ ext)
   \<and> (\<forall>d pre rest. p = d @ pre @ CHR ''.'' # rest
          \<longrightarrow> (d = [] \<or> last d = CHR ''/'')
          \<longrightarrow> CHR ''/'' \<notin> set pre \<longrightarrow> CHR ''/'' \<notin> set rest \<longrightarrow> CHR ''.'' \<notin> set rest
          \<longrightarrow> make_file_path p (Some uid)
                = (if \<exists>c\<in>set pre. c \<noteq> CHR ''.'' then d @ pre @ ''_'' @ uid @ CHR ''.'' # rest
                   else p @ ''_'' @ uid))
   \<and> (\<forall>d name. p = d @ name
          \<longrightarrow> (d = [] \<or> last d = CHR ''/'')
          \<longrightarrow> CHR ''/'' \<notin> set name \<longrightarrow> CHR ''.'' \<notin> set name
          \<longrightarrow> make_file_path p (Some uid) = p @ ''_'' @ uid)
   \<and> make_file_path p (Some uid) \<noteq> make_file_path p None
   \<and> (\<forall>t. make_target env p unique_id processor lock sif = Inr t
          \<longrightarrow> sft_path t = make_file_path p unique_id)
   \<and> (\<forall>t t'. make_target env p (Some uid) processor lock sif = Inr t
          \<longrightarrow> make_target env' p None processor' lock' sif' = Inr t'
          \<longrightarrow> sft_path t \<noteq> sft_path t')
   \<and> (\<forall>t t'. make_target env p unique_id processor lock sif = Inr t
          \<longrightarrow> make_target env' p unique_id processor' lock' sif' = Inr t'
          \<longrightarrow> sft_path t = sft_path t')"
proof -
  have none: "make_file_path p None = p" by (simp add: make_file_path_def)
  obtain base ext where sp: "splitext p = (base, ext)" by (cases "splitext p")
  then have cat: "base @ ext = p" by (rule splitext_concat)
  have shape: "ext = [] \<or> (\<exists>rest. ext = CHR ''.'' # rest \<and> CHR ''.'' \<notin> set rest
                                 \<and> CHR ''/'' \<notin> set rest)"
    using splitext_cases [of p] sp by auto
  have some: "make_file_path p (Some uid) = base @ ''_'' @ uid @ ext"
    using sp by (simp add: make_file_path_def)
  have both: "\<exists>base ext. splitext p = (base, ext) \<and> base @ ext = p
      \<and> (ext = [] \<or> (\<exists>rest. ext = CHR ''.'' # rest \<and> CHR ''.'' \<notin> set rest
                             \<and> CHR ''/'' \<notin> set rest))
      \<and> make_file_path p (Some uid) = base @ ''_'' @ uid @ ext"
    using sp cat shape some by blast
  have dot: "make_file_path p (Some uid)
             = (if \<exists>c\<in>set pre. c \<noteq> CHR ''.'' then d @ pre @ ''_'' @ uid @ CHR ''.'' # rest
                else p @ ''_'' @ uid)"
    if "p = d @ pre @ CHR ''.'' # rest" "d = [] \<or> last d = CHR ''/''"
      "CHR ''/'' \<notin> set pre" "CHR ''/'' \<notin> set rest" "CHR ''.'' \<notin> set rest" for d pre rest
    unfolding that(1) make_file_path_def using splitext_dot [OF that(2-5)] by simp
  have nodot: "make_file_path p (Some uid) = p @ ''_'' @ uid"
    if "p = d @ name" "d = [] \<or> last d = CHR ''/''"
      "CHR ''/'' \<notin> set name" "CHR ''.'' \<notin> set name" for d name
    unfolding that(1) make_file_path_def using splitext_nodot [OF that(2-4)] by simp
  have "length (make_file_path p (Some uid)) = length p + 1 + length uid"
    unfolding some using cat by auto
  then have diff: "make_file_path p (Some uid) \<noteq> make_file_path p None"
    unfolding none by auto
  have path: "sft_path t = make_file_path p unique_id"
    if "make_target env p unique_id processor lock sif = Inr t" for t
    using that by (rule make_target_path)
  have apart: "sft_path t \<noteq> sft_path t'"
    if "make_target env p (Some uid) processor lock sif = Inr t"
      and "make_target env' p None processor' lock' sif' = Inr t'" for t t'
    using make_target_path [OF that(1)] make_target_path [OF that(2)] diff by simp
  have same: "sft_path t = sft_path t'"
    if "make_target env p unique_id processor lock sif = Inr t"
      and "make_target env' p unique_id processor' lock' sif' = Inr t'" for t t'
    using make_target_path [OF that(1)] make_target_path [OF that(2)] by simp
  show ?thesis
  proof (intro conjI allI impI)
    show "make_file_path p None = p" by (rule none)
    show "\<exists>base ext. splitext p = (base, ext) \<and> base @ ext = p
      \<and> (ext = [] \<or> (\<exists>rest. ext = CHR ''.'' # rest \<and> CHR ''.'' \<notin> set rest
                             \<and> CHR ''/'' \<notin> set rest))
      \<and> make_file_path p (Some uid) = base @ ''_'' @ uid @ ext" by (rule both)
    show "make_file_path p (Some uid) \<noteq> make_file_path p None" by (rule diff)
  qed (use dot nodot path apart same in blast)+
qed

theorem make_target_final_path_witness:
  "(\<exists>t. make_target
           \<lparr>make_task_lock_params = (\<lambda>p u. p), make_file_processor = (\<lambda>p s. Inr ''pickle''),
            if_object_storage_path = (\<lambda>p. startswith p ''gs://''), processor_format = (\<lambda>p. ''binary''),
            processor_dump = (\<lambda>p obj. Inr (obj :: nat)), processor_load = (\<lambda>p b. Inr (b :: nat))\<rparr>
           ''a/b.dat'' (Some ''42'') None None True = Inr t
        \<and> sft_path t = ''a/b_42.dat'')
   \<and> (\<exists>t'. make_target
           \<lparr>make_task_lock_params = (\<lambda>p u. p), make_file_processor = (\<lambda>p s. Inr ''pickle''),
            if_object_storage_path = (\<lambda>p. startswith p ''gs://''), processor_format = (\<lambda>p. ''binary''),
            processor_dump = (\<lambda>p obj. Inr (obj :: nat)), processor_load = (\<lambda>p b. Inr (b :: nat))\<rparr>
           ''a/b.dat'' None None None True = Inr t'
        \<and> sft_path t' = ''a/b.dat'')
   \<and> make_file_path ''a/..'' (Some ''42'') = ''a/.._42''
   \<and> make_file_path ''a.b/c'' (Some ''42'') = ''a.b/c_42''"
proof -
  let ?env = "\<lparr>make_task_lock_params = (\<lambda>p u. p), make_file_processor = (\<lambda>p s. Inr ''pickle''),
            if_object_storage_path = (\<lambda>p. startswith p ''gs://''), processor_format = (\<lambda>p. ''binary''),
            processor_dump = (\<lambda>p obj. Inr (obj :: nat)), processor_load = (\<lambda>p b. Inr (b :: nat))\<rparr>"
  note T1 = make_target_final_path [of "''a/b.dat''" "''42''" ?env "Some ''42''" None None True
      ?env None None True]
  note T2 = make_target_final_path [of "''a/b.dat''" "''42''" ?env None None None True
      ?env None None True]
  note T3 = make_target_final_path [of "''a/..''" "''42''" ?env None None None True
      ?env None None True]
  note T4 = make_target_final_path [of "''a.b/c''" "''42''" ?env None None None True
      ?env None None True]
  from T1 [THEN conjunct2, THEN conjunct2, THEN conjunct1, rule_format,
      of "''a/''" "''b''" "''dat''"]
  have p1: "make_file_path ''a/b.dat'' (Some ''42'') = ''a/b_42.dat''" by simp
  from T3 [THEN conjunct2, THEN conjunct2, THEN conjunct1, rule_format,
      of "''a/''" "''.''" "''''"]
  have p3: "make_file_path ''a/..'' (Some ''42'') = ''a/.._42''" by simp
  from T4 [THEN conjunct2, THEN conjunct2, THEN conjunct2, THEN conjunct1, rule_format,
      of "''a.b/''" "''c''"]
  have p4: "make_file_path ''a.b/c'' (Some ''42'') = ''a.b/c_42''" by simp
  obtain t where t: "make_target ?env ''a/b.dat'' (Some ''42'') None None True = Inr t"
    by (simp add: make_target_def make_file_system_target_def Let_def p1 startswith_def)
  obtain t' where t': "make_target ?env ''a/b.dat'' None None None True = Inr t'"
    by (simp add: make_target_def make_file_system_target_def Let_def make_file_path_def
        startswith_def)
  from T1 t have "sft_path t = ''a/b_42.dat''" by (simp add: p1)
  moreover
  from T2 t' have "sft_path t' = ''a/b.dat''" by simp
  ultimately show ?thesis using t t' p3 p4 by blast
qed

section \<open>Annotation after a dump\<close>

lemma make_target_backend:
  "make_target env p uid processor lock sif = Inr t \<Longrightarrow>
     handle_backend (sft_target t)
       = (if if_object_storage_path env (sft_path t) then ObjectStorage else LocalFileSystem)"
  by (auto simp: make_target_def make_file_system_target_def Let_def sft_path_def
      split: option.splits sum.splits if_splits)

text \<open>
  C6 (as amended): after a write that succeeded, the annotator has been called once more,
  with the path and the supplied parameters, labels and required outputs, exactly when the
  path of the target starts with \<open>gs://\<close>; otherwise it has not been called. A write
  that raised changes nothing and calls nothing. For a target made by \<open>make_target\<close>
  whose collaborator counts every \<open>gs://\<close> path as object storage, a local destination
  is never annotated.
\<close>

theorem sft_dump_annotation:
  "(fst (sft_dump env t obj task_params custom_labels required_task_outputs s) = Inr ()
      \<longrightarrow> annotations (snd (sft_dump env t obj task_params custom_labels required_task_outputs s))
            = (if startswith (sft_path t) ''gs://''
               then annotations s @ [\<lparr>ann_path = sft_path t, ann_task_params = task_params,
                                      ann_custom_labels = custom_labels,
                                      ann_required_task_outputs = required_task_outputs\<rparr>]
               else annotations s))
   \<and> (\<forall>e. fst (sft_dump env t obj task_params custom_labels required_task_outputs s) = Inl e
          \<longrightarrow> snd (sft_dump env t obj task_params custom_labels required_task_outputs s) = s)
   \<and> ((\<forall>path. startswith path ''gs://'' \<longrightarrow> if_object_storage_path env path)
          \<longrightarrow> make_target env p uid processor lock sif = Inr t
          \<longrightarrow> handle_backend (sft_target t) = LocalFileSystem
          \<longrightarrow> annotations (snd (sft_dump env t obj task_params custom_labels required_task_outputs s))
                = annotations s)"
proof -
  let ?r = "sft_dump env t obj task_params custom_labels required_task_outputs s"
  have a: "fst ?r = Inr () \<longrightarrow> annotations (snd ?r)
            = (if startswith (sft_path t) ''gs://''
               then annotations s @ [\<lparr>ann_path = sft_path t, ann_task_params = task_params,
                                      ann_custom_labels = custom_labels,
                                      ann_required_task_outputs = required_task_outputs\<rparr>]
               else annotations s)"
    by (auto simp: sft_dump_def Let_def split: sum.splits)
  have b: "\<forall>e. fst ?r = Inl e \<longrightarrow> snd ?r = s"
    by (auto simp: sft_dump_def Let_def split: sum.splits)
  have c: "annotations (snd ?r) = annotations s"
    if gs: "\<forall>path. startswith path ''gs://'' \<longrightarrow> if_object_storage_path env path"
      and mk: "make_target env p uid processor lock sif = Inr t"
      and loc: "handle_backend (sft_target t) = LocalFileSystem"
  proof -
    from make_target_backend [OF mk] loc have "\<not> if_object_storage_path env (sft_path t)"
      by (auto split: if_splits)
    with gs have "\<not> startswith (sft_path t) ''gs://''" by blast
    then show ?thesis by (auto simp: sft_dump_def Let_def split: sum.splits)
  qed
  from a b c show ?thesis by blast
qed

theorem sft_dump_annotation_witness:
  "annotations (snd (sft_dump
       \<lparr>make_task_lock_params = (\<lambda>p u. p), make_file_processor = (\<lambda>p s. Inr ''pickle''),
          if_object_storage_path = (\<lambda>p. startswith p ''s3://'' \<or> startswith p ''gs://''),
          processor_format = (\<lambda>p. ''binary''),
          processor_dump = (\<lambda>p obj. if obj = (0 :: nat) then Inl (Raised ''cannot pickle'') else Inr obj),
          processor_load = (\<lambda>p b. Inr (b :: nat))\<rparr>
       \<lparr>sft_target = \<lparr>handle_path = ''gs://bucket/a.pkl'', handle_backend = ObjectStorage, handle_format = ''binary''\<rparr>,
          sft_processor = ''pickle'', sft_task_lock_params = ''gs://bucket/a.pkl''\<rparr>
       1 (Some [(''param'', ''x'')]) None None
       \<lparr>objects = Map.empty, annotations = [] :: unit annotation list\<rparr>))
     = [\<lparr>ann_path = ''gs://bucket/a.pkl'', ann_task_params = Some [(''param'', ''x'')],
         ann_custom_labels = None, ann_required_task_outputs = None\<rparr>]
   \<and> snd (sft_dump
       \<lparr>make_task_lock_params = (\<lambda>p u. p), make_file_processor = (\<lambda>p s. Inr ''pickle''),
          if_object_storage_path = (\<lambda>p. startswith p ''s3://'' \<or> startswith p ''gs://''),
          processor_format = (\<lambda>p. ''binary''),
          processor_dump = (\<lambda>p obj. if obj = (0 :: nat) then Inl (Raised ''cannot pickle'') else Inr obj),
          processor_load = (\<lambda>p b. Inr (b :: nat))\<rparr>
       \<lparr>sft_target = \<lparr>handle_path = ''gs://bucket/a.pkl'', handle_backend = ObjectStorage, handle_format = ''binary''\<rparr>,
          sft_processor = ''pickle'', sft_task_lock_params = ''gs://bucket/a.pkl''\<rparr>
       0 (Some [(''param'', ''x'')]) None None
       \<lparr>objects = Map.empty, annotations = [] :: unit annotation list\<rparr>)
     = \<lparr>objects = Map.empty, annotations = [] :: unit annotation list\<rparr>
   \<and> annotations (snd (sft_dump
       \<lparr>make_task_lock_params = (\<lambda>p u. p), make_file_processor = (\<lambda>p s. Inr ''pickle''),
          if_object_storage_path = (\<lambda>p. startswith p ''s3://'' \<or> startswith p ''gs://''),
          processor_format = (\<lambda>p. ''binary''),
          processor_dump = (\<lambda>p obj. if obj = (0 :: nat) then Inl (Raised ''cannot pickle'') else Inr obj),
          processor_load = (\<lambda>p b. Inr (b :: nat))\<rparr>
       \<lparr>sft_target = \<lparr>handle_path = ''a/b.pkl'', handle_backend = LocalFileSystem, handle_format = ''binary''\<rparr>,
          sft_processor = ''pickle'', sft_task_lock_params = ''a/b.pkl''\<rparr>
       1 (Some [(''param'', ''x'')]) None None
       \<lparr>objects = Map.empty, annotations = [] :: unit annotation list\<rparr>))
     = []"
proof -
  let ?env = "\<lparr>make_task_lock_params = (\<lambda>p u. p), make_file_processor = (\<lambda>p s. Inr ''pickle''),
          if_object_storage_path = (\<lambda>p. startswith p ''s3://'' \<or> startswith p ''gs://''),
          processor_format = (\<lambda>p. ''binary''),
          processor_dump = (\<lambda>p obj. if obj = (0 :: nat) then Inl (Raised ''cannot pickle'') else Inr obj),
          processor_load = (\<lambda>p b. Inr (b :: nat))\<rparr>"
  let ?gs = "\<lparr>sft_target = \<lparr>handle_path = ''gs://bucket/a.pkl'', handle_backend = ObjectStorage, handle_format = ''binary''\<rparr>,
          sft_processor = ''pickle'', sft_task_lock_params = ''gs://bucket/a.pkl''\<rparr>"
  let ?loc = "\<lparr>sft_target = \<lparr>handle_path = ''a/b.pkl'', handle_backend = LocalFileSystem, handle_format = ''binary''\<rparr>,
          sft_processor = ''pickle'', sft_task_lock_params = ''a/b.pkl''\<rparr>"
  let ?s = "\<lparr>objects = Map.empty, annotations = [] :: unit annotation list\<rparr>"
  let ?tp = "Some [(''param'', ''x'')]"
  have ok: "fst (sft_dump ?env ?gs 1 ?tp None None ?s) = Inr ()"
    by (simp add: sft_dump_def Let_def)
  have bad: "fst (sft_dump ?env ?gs 0 ?tp None None ?s) = Inl (Raised ''cannot pickle'')"
    by (simp add: sft_dump_def Let_def)
  have accepts: "\<forall>path. startswith path ''gs://'' \<longrightarrow> if_object_storage_path ?env path"
    by simp
  have mk: "make_target ?env ''a/b.pkl'' None None None True = Inr ?loc"
    by (simp add: make_target_def make_file_system_target_def Let_def make_file_path_def
        startswith_def)
  have loc: "handle_backend (sft_target ?loc) = LocalFileSystem" by simp
  from sft_dump_annotation [of ?env ?gs 1 ?tp None None ?s] ok
  have one: "annotations (snd (sft_dump ?env ?gs 1 ?tp None None ?s))
       = [\<lparr>ann_path = ''gs://bucket/a.pkl'', ann_task_params = ?tp,
           ann_custom_labels = None, ann_required_task_outputs = None\<rparr>]"
    by (simp add: startswith_def sft_path_def)
  from sft_dump_annotation [of ?env ?gs 0 ?tp None None ?s] bad
  have two: "snd (sft_dump ?env ?gs 0 ?tp None None ?s) = ?s"
    by blast
  from sft_dump_annotation [of ?env ?loc 1 ?tp None None ?s "''a/b.pkl''" None None None True]
    accepts mk loc
  have three: "annotations (snd (sft_dump ?env ?loc 1 ?tp None None ?s)) = []"
    by simp
  from one two three show ?thesis by blast
qed

theorem sft_dump_s3_counterexample:
  "make_target
       \<lparr>make_task_lock_params = (\<lambda>p u. p), make_file_processor = (\<lambda>p s. Inr ''pickle''),
          if_object_storage_path = (\<lambda>p. startswith p ''s3://'' \<or> startswith p ''gs://''),
          processor_format = (\<lambda>p. ''binary''),
          processor_dump = (\<lambda>p obj. if obj = (0 :: nat) then Inl (Raised ''cannot pickle'') else Inr obj),
          processor_load = (\<lambda>p b. Inr (b :: nat))\<rparr>
       ''s3://bucket/a.pkl'' None None None True
     = Inr \<lparr>sft_target = \<lparr>handle_path = ''s3://bucket/a.pkl'', handle_backend = ObjectStorage, handle_format = ''binary''\<rparr>,
          sft_processor = ''pickle'', sft_task_lock_params = ''s3://bucket/a.pkl''\<rparr>
   \<and> handle_backend (sft_target \<lparr>sft_target = \<lparr>handle_path = ''s3://bucket/a.pkl'', handle_backend = ObjectStorage, handle_format = ''binary''\<rparr>,
          sft_processor = ''pickle'', sft_task_lock_params = ''s3://bucket/a.pkl''\<rparr>) = ObjectStorage
   \<and> fst (sft_dump
       \<lparr>make_task_lock_params = (\<lambda>p u. p), make_file_processor = (\<lambda>p s. Inr ''pickle''),
          if_object_storage_path = (\<lambda>p. startswith p ''s3://'' \<or> startswith p ''gs://''),
          processor_format = (\<lambda>p. ''binary''),
          processor_dump = (\<lambda>p obj. if obj = (0 :: nat) then Inl (Raised ''cannot pickle'') else Inr obj),
          processor_load = (\<lambda>p b. Inr (b :: nat))\<rparr>
       \<lparr>sft_target = \<lparr>handle_path = ''s3://bucket/a.pkl'', handle_backend = ObjectStorage, handle_format = ''binary''\<rparr>,
          sft_processor = ''pickle'', sft_task_lock_params = ''s3://bucket/a.pkl''\<rparr>
       1 (Some [(''param'', ''x'')]) None None
       \<lparr>objects = Map.empty, annotations = [] :: unit annotation list\<rparr>) = Inr ()
   \<and> annotations (snd (sft_dump
       \<lparr>make_task_lock_params = (\<lambda>p u. p), make_file_processor = (\<lambda>p s. Inr ''pickle''),
          if_object_storage_path = (\<lambda>p. startswith p ''s3://'' \<or> startswith p ''gs://''),
          processor_format = (\<lambda>p. ''binary''),
          processor_dump = (\<lambda>p obj. if obj = (0 :: nat) then Inl (Raised ''cannot pickle'') else Inr obj),
          processor_load = (\<lambda>p b. Inr (b :: nat))\<rparr>
       \<lparr>sft_target = \<lparr>handle_path = ''s3://bucket/a.pkl'', handle_backend = ObjectStorage, handle_format = ''binary''\<rparr>,
          sft_processor = ''pickle'', sft_task_lock_params = ''s3://bucket/a.pkl''\<rparr>
       1 (Some [(''param'', ''x'')]) None None
       \<lparr>objects = Map.empty, annotations = [] :: unit annotation list\<rparr>)) = []"
  by (simp add: make_target_def make_file_system_target_def Let_def make_file_path_def
      startswith_def sft_dump_def sft_path_def)

section \<open>Scratch directories\<close>

lemma rmtree_gone: "rmtree p fs = (Inr u, fs') \<Longrightarrow> fs' (dir_key p) = None"
  by (auto simp: rmtree_def split: option.splits if_splits)

lemma remove_temporary_directory_gone:
  "remove_temporary_directory t w = (Inr u, w')
     \<Longrightarrow> w_fs w' (dir_key (mt_temporary_directory t)) = None"
  by (auto simp: remove_temporary_directory_def split: prod.splits dest: rmtree_gone)

lemma mt_dump_Inr:
  assumes "mt_dump env t obj tp cl rto w = (Inr u, w')"
  shows "w_fs w' (dir_key (mt_temporary_directory t)) = None"
  using assms
  by (auto simp: mt_dump_def split: prod.splits sum.splits dest: remove_temporary_directory_gone)

lemma remove_temporary_directory_field:
  "remove_temporary_directory (t\<lparr>mt_load_function := lf\<rparr>) w = remove_temporary_directory t w"
  by (simp add: remove_temporary_directory_def)

lemma model_path_field: "model_path (t\<lparr>mt_load_function := lf\<rparr>) = model_path t"
  by (simp add: model_path_def)

lemma mt_load_Inr:
  assumes "mt_load env t w = (Inr model, t', w')"
  shows "w_fs w' (dir_key (mt_temporary_directory t)) = None"
  using assms
  by (auto simp: mt_load_def Let_def remove_temporary_directory_field
      split: prod.splits sum.splits option.splits
      dest: remove_temporary_directory_gone)

text \<open>The two cases of \<^verbatim>\<open>self._load_function or ...\<close>.\<close>

lemma resolve_bound:
  "mt_load_function t = Some f \<Longrightarrow> truthy env f
     \<Longrightarrow> resolve_load_function env t w = (Inr (Some f), w)"
  by (simp add: resolve_load_function_def)

lemma resolve_unbound:
  "\<forall>g. mt_load_function t = Some g \<longrightarrow> \<not> truthy env g
     \<Longrightarrow> resolve_load_function env t w = nested_load env (load_function_path t) w"
  by (simp add: resolve_load_function_def split: option.splits)

text \<open>A load with a reconstruction function at hand: unpack, call, remove.\<close>

lemma mt_load_bound:
  assumes "mt_load_function t = Some f" "truthy env f"
  shows "mt_load env t w
         = (case unpack_archive (mt_zip_client t) w of
              (Inl e, w1) \<Rightarrow> (Inl e, t, w1)
            | (Inr u, w1) \<Rightarrow>
                (case call_load_function env f (model_path t) w1 of
                   (Inl e, w3) \<Rightarrow> (Inl e, t, w3)
                 | (Inr model, w3) \<Rightarrow>
                     (case remove_temporary_directory t w3 of
                        (Inl e, w4) \<Rightarrow> (Inl e, t, w4)
                      | (Inr u', w4) \<Rightarrow> (Inr model, t, w4))))"
proof -
  from assms(1) have same: "t\<lparr>mt_load_function := Some f\<rparr> = t" by simp
  show ?thesis
    by (simp add: mt_load_def Let_def resolve_bound [OF assms] same
        split: prod.splits sum.splits)
qed

lemma mt_load_unbound:
  assumes "\<forall>g. mt_load_function t = Some g \<longrightarrow> \<not> truthy env g"
    and "unpack_archive (mt_zip_client t) w = (Inr (), w1)"
  shows "mt_load env t w
         = (case nested_load env (load_function_path t) w1 of
              (Inl e, w2) \<Rightarrow> (Inl e, t, w2)
            | (Inr None, w2) \<Rightarrow> (Inl TypeError, t\<lparr>mt_load_function := None\<rparr>, w2)
            | (Inr (Some f), w2) \<Rightarrow>
                (case call_load_function env f (model_path t) w2 of
                   (Inl e, w3) \<Rightarrow> (Inl e, t\<lparr>mt_load_function := Some f\<rparr>, w3)
                 | (Inr model, w3) \<Rightarrow>
                     (case remove_temporary_directory t w3 of
                        (Inl e, w4) \<Rightarrow> (Inl e, t\<lparr>mt_load_function := Some f\<rparr>, w4)
                      | (Inr u', w4) \<Rightarrow> (Inr model, t\<lparr>mt_load_function := Some f\<rparr>, w4))))"
  by (simp add: mt_load_def Let_def resolve_unbound [OF assms(1)] assms(2)
      remove_temporary_directory_field model_path_field
      split: prod.splits sum.splits option.splits)

lemma mt_load_target:
  "fst (snd (mt_load env t w)) = t
   \<or> (\<exists>lf. fst (snd (mt_load env t w)) = t\<lparr>mt_load_function := lf\<rparr>)"
  by (auto simp: mt_load_def Let_def split: prod.splits sum.splits option.splits)

section \<open>The example target\<close>

lemma dir_key_tmp: "dir_key ''/tmp/abc'' = ''/tmp/abc''"
  by (simp add: dir_key_def rstrip_sep_def)


lemma example_dump_fails:
  "mt_dump example_nested (ModelTarget ''out/model.zip'' ''/tmp/abc'' (Some ''loader'') example_failing_save ())
     7 None None None \<lparr>w_fs = Map.empty, w_archives = Map.empty\<rparr>
   = (Inl (Raised ''disk full''), \<lparr>w_fs = [''/tmp/abc'' \<mapsto> Map.empty], w_archives = Map.empty\<rparr>)"
  by (simp add: mt_dump_def ModelTarget_def make_temporary_directory_def makedirs_empty dir_key_tmp
      example_failing_save_def)

lemma example_dump:
  "mt_dump example_nested
     (ModelTarget ''out/model.zip'' ''/tmp/abc'' (Some ''loader'') example_save ())
     7 None None None \<lparr>w_fs = Map.empty, w_archives = Map.empty\<rparr>
   = (Inr (), \<lparr>w_fs = Map.empty,
               w_archives = [''out/model.zip'' \<mapsto>
                 [''model.pkl'' \<mapsto> Payload 7,
                  ''load_function.pkl'' \<mapsto> Pickled_function (Some ''loader'')]]\<rparr>)"
  by (simp add: mt_dump_def ModelTarget_def make_temporary_directory_def makedirs_empty dir_key_tmp
      example_save_def example_nested_def spec_nested_dump_def model_path_def load_function_path_def
      to_pickle_single make_zip_client_def remove_temporary_directory_def rmtree_def fun_eq_iff)

lemma example_load:
  "mt_load example_nested (ModelTarget ''out/model.zip'' ''/tmp/abc'' None example_save ())
     \<lparr>w_fs = Map.empty,
      w_archives = [''out/model.zip'' \<mapsto> [''model.pkl'' \<mapsto> Payload 7,
                      ''load_function.pkl'' \<mapsto> Pickled_function (Some ''loader'')]]\<rparr>
   = (Inr 7, ModelTarget ''out/model.zip'' ''/tmp/abc'' (Some ''loader'') example_save (),
      \<lparr>w_fs = Map.empty,
       w_archives = [''out/model.zip'' \<mapsto> [''model.pkl'' \<mapsto> Payload 7,
                      ''load_function.pkl'' \<mapsto> Pickled_function (Some ''loader'')]]\<rparr>)"
  by (simp add: mt_load_def Let_def ModelTarget_def make_zip_client_def example_nested_def
      resolve_load_function_def spec_nested_load_def example_call_def model_path_def
      load_function_path_def dir_key_tmp read_pickle_single
      remove_temporary_directory_def rmtree_def fun_eq_iff)

text \<open>An archive without the model file: the reconstruction function is loaded and raises.\<close>

lemma example_load_fails:
  "mt_load example_nested (ModelTarget ''out/model.zip'' ''/tmp/abc'' None example_save ())
     \<lparr>w_fs = Map.empty,
      w_archives = [''out/model.zip'' \<mapsto>
                      [''load_function.pkl'' \<mapsto> Pickled_function (Some ''loader'')]]\<rparr>
   = (Inl FileNotFoundError,
      ModelTarget ''out/model.zip'' ''/tmp/abc'' (Some ''loader'') example_save (),
      \<lparr>w_fs = [''/tmp/abc'' \<mapsto> [''load_function.pkl'' \<mapsto> Pickled_function (Some ''loader'')]],
       w_archives = [''out/model.zip'' \<mapsto>
                      [''load_function.pkl'' \<mapsto> Pickled_function (Some ''loader'')]]\<rparr>)"
  by (simp add: mt_load_def Let_def ModelTarget_def make_zip_client_def example_nested_def
      resolve_load_function_def spec_nested_load_def example_call_def model_path_def
      load_function_path_def dir_key_tmp read_pickle_single)

section \<open>Leaving dump and load\<close>

text \<open>
  C3 (as amended): when \<open>_dump\<close> or \<open>_load\<close> returns normally the scratch directory
  is gone. When the save function, the nested dump of the reconstruction function, the
  archiving, the unpacking, the nested load of the reconstruction function or the
  reconstruction function itself raises, the call ends there with that exception and
  leaves the state as the failing step left it, whether the target held its reconstruction
  function or has just loaded it: no exit path but the normal one removes the scratch
  directory.
\<close>

theorem mt_scratch_cleanup:
  "(fst (mt_dump env t obj tp cl rto w) = Inr ()
      \<longrightarrow> w_fs (snd (mt_dump env t obj tp cl rto w)) (dir_key (mt_temporary_directory t)) = None)
   \<and> (\<forall>model. fst (mt_load env t w) = Inr model
          \<longrightarrow> w_fs (snd (snd (mt_load env t w))) (dir_key (mt_temporary_directory t)) = None)
   \<and> (\<forall>w1 e w2. make_temporary_directory t w = (Inr (), w1)
          \<longrightarrow> mt_save_function t obj (model_path t) w1 = (Inl e, w2)
          \<longrightarrow> mt_dump env t obj tp cl rto w = (Inl e, w2))
   \<and> (\<forall>w1 w2 e w3. make_temporary_directory t w = (Inr (), w1)
          \<longrightarrow> mt_save_function t obj (model_path t) w1 = (Inr (), w2)
          \<longrightarrow> nested_dump env (load_function_path t) (mt_load_function t) tp cl rto w2 = (Inl e, w3)
          \<longrightarrow> mt_dump env t obj tp cl rto w = (Inl e, w3))
   \<and> (\<forall>w1 w2 w3 e w4. make_temporary_directory t w = (Inr (), w1)
          \<longrightarrow> mt_save_function t obj (model_path t) w1 = (Inr (), w2)
          \<longrightarrow> nested_dump env (load_function_path t) (mt_load_function t) tp cl rto w2 = (Inr (), w3)
          \<longrightarrow> make_archive (mt_zip_client t) w3 = (Inl e, w4)
          \<longrightarrow> mt_dump env t obj tp cl rto w = (Inl e, w4))
   \<and> (\<forall>e w1. unpack_archive (mt_zip_client t) w = (Inl e, w1)
          \<longrightarrow> mt_load env t w = (Inl e, t, w1))
   \<and> (\<forall>w1 f e w3. unpack_archive (mt_zip_client t) w = (Inr (), w1)
          \<longrightarrow> mt_load_function t = Some f \<longrightarrow> truthy env f
          \<longrightarrow> call_load_function env f (model_path t) w1 = (Inl e, w3)
          \<longrightarrow> mt_load env t w = (Inl e, t, w3))
   \<and> (\<forall>w1 e w2. unpack_archive (mt_zip_client t) w = (Inr (), w1)
          \<longrightarrow> (\<forall>g. mt_load_function t = Some g \<longrightarrow> \<not> truthy env g)
          \<longrightarrow> nested_load env (load_function_path t) w1 = (Inl e, w2)
          \<longrightarrow> mt_load env t w = (Inl e, t, w2))
   \<and> (\<forall>w1 w2. unpack_archive (mt_zip_client t) w = (Inr (), w1)
          \<longrightarrow> (\<forall>g. mt_load_function t = Some g \<longrightarrow> \<not> truthy env g)
          \<longrightarrow> nested_load env (load_function_path t) w1 = (Inr None, w2)
          \<longrightarrow> mt_load env t w = (Inl TypeError, t\<lparr>mt_load_function := None\<rparr>, w2))
   \<and> (\<forall>w1 f w2 e w3. unpack_archive (mt_zip_client t) w = (Inr (), w1)
          \<longrightarrow> (\<forall>g. mt_load_function t = Some g \<longrightarrow> \<not> truthy env g)
          \<longrightarrow> nested_load env (load_function_path t) w1 = (Inr (Some f), w2)
          \<longrightarrow> call_load_function env f (model_path t) w2 = (Inl e, w3)
          \<longrightarrow> mt_load env t w = (Inl e, t\<lparr>mt_load_function := Some f\<rparr>, w3))"
proof -
  have d: "fst (mt_dump env t obj tp cl rto w) = Inr ()
      \<longrightarrow> w_fs (snd (mt_dump env t obj tp cl rto w)) (dir_key (mt_temporary_directory t)) = None"
    using mt_dump_Inr [of env t obj tp cl rto w "()" "snd (mt_dump env t obj tp cl rto w)"]
    by (simp add: prod_eq_iff)
  have l: "\<forall>model. fst (mt_load env t w) = Inr model
          \<longrightarrow> w_fs (snd (snd (mt_load env t w))) (dir_key (mt_temporary_directory t)) = None"
    using mt_load_Inr [of env t w _ "fst (snd (mt_load env t w))" "snd (snd (mt_load env t w))"]
    by (simp add: prod_eq_iff)
  have s: "mt_dump env t obj tp cl rto w = (Inl e, w2)"
    if "make_temporary_directory t w = (Inr (), w1)"
      and "mt_save_function t obj (model_path t) w1 = (Inl e, w2)" for w1 e w2
    using that by (simp add: mt_dump_def)
  have n: "mt_dump env t obj tp cl rto w = (Inl e, w3)"
    if "make_temporary_directory t w = (Inr (), w1)"
      and "mt_save_function t obj (model_path t) w1 = (Inr (), w2)"
      and "nested_dump env (load_function_path t) (mt_load_function t) tp cl rto w2 = (Inl e, w3)"
    for w1 w2 e w3
    using that by (simp add: mt_dump_def)
  have a: "mt_dump env t obj tp cl rto w = (Inl e, w4)"
    if "make_temporary_directory t w = (Inr (), w1)"
      and "mt_save_function t obj (model_path t) w1 = (Inr (), w2)"
      and "nested_dump env (load_function_path t) (mt_load_function t) tp cl rto w2 = (Inr (), w3)"
      and "make_archive (mt_zip_client t) w3 = (Inl e, w4)"
    for w1 w2 w3 e w4
    using that by (simp add: mt_dump_def)
  have u: "mt_load env t w = (Inl e, t, w1)"
    if "unpack_archive (mt_zip_client t) w = (Inl e, w1)" for e w1
    using that by (simp add: mt_load_def)
  have c: "mt_load env t w = (Inl e, t, w3)"
    if "unpack_archive (mt_zip_client t) w = (Inr (), w1)" and "mt_load_function t = Some f"
      and "truthy env f"
      and "call_load_function env f (model_path t) w1 = (Inl e, w3)" for w1 f e w3
    using that by (simp add: mt_load_bound)
  have nl: "mt_load env t w = (Inl e, t, w2)"
    if "unpack_archive (mt_zip_client t) w = (Inr (), w1)"
      and "\<forall>g. mt_load_function t = Some g \<longrightarrow> \<not> truthy env g"
      and "nested_load env (load_function_path t) w1 = (Inl e, w2)" for w1 e w2
    using that(3) by (simp add: mt_load_unbound [OF that(2,1)])
  have nn: "mt_load env t w = (Inl TypeError, t\<lparr>mt_load_function := None\<rparr>, w2)"
    if "unpack_archive (mt_zip_client t) w = (Inr (), w1)"
      and "\<forall>g. mt_load_function t = Some g \<longrightarrow> \<not> truthy env g"
      and "nested_load env (load_function_path t) w1 = (Inr None, w2)" for w1 w2
    using that(3) by (simp add: mt_load_unbound [OF that(2,1)])
  have lc: "mt_load env t w = (Inl e, t\<lparr>mt_load_function := Some f\<rparr>, w3)"
    if "unpack_archive (mt_zip_client t) w = (Inr (), w1)"
      and "\<forall>g. mt_load_function t = Some g \<longrightarrow> \<not> truthy env g"
      and "nested_load env (load_function_path t) w1 = (Inr (Some f), w2)"
      and "call_load_function env f (model_path t) w2 = (Inl e, w3)" for w1 f w2 e w3
    using that(3,4) by (simp add: mt_load_unbound [OF that(2,1)])
  show ?thesis
  proof (intro conjI)
    show "fst (mt_dump env t obj tp cl rto w) = Inr ()
      \<longrightarrow> w_fs (snd (mt_dump env t obj tp cl rto w)) (dir_key (mt_temporary_directory t)) = None"
      by (rule d)
    show "\<forall>model. fst (mt_load env t w) = Inr model
          \<longrightarrow> w_fs (snd (snd (mt_load env t w))) (dir_key (mt_temporary_directory t)) = None"
      by (rule l)
  qed (use s n a u c nl nn lc in blast)+
qed

theorem mt_scratch_cleanup_witness:
  "w_fs (snd (mt_dump example_nested
       (ModelTarget ''out/model.zip'' ''/tmp/abc'' (Some ''loader'') example_save ())
       7 None None None \<lparr>w_fs = Map.empty, w_archives = Map.empty\<rparr>)) ''/tmp/abc'' = None
   \<and> mt_dump example_nested
       (ModelTarget ''out/model.zip'' ''/tmp/abc'' (Some ''loader'') example_failing_save ())
       7 None None None \<lparr>w_fs = Map.empty, w_archives = Map.empty\<rparr>
     = (Inl (Raised ''disk full''), \<lparr>w_fs = [''/tmp/abc'' \<mapsto> Map.empty], w_archives = Map.empty\<rparr>)
   \<and> mt_load example_nested (ModelTarget ''out/model.zip'' ''/tmp/abc'' None example_save ())
       \<lparr>w_fs = Map.empty,
        w_archives = [''out/model.zip'' \<mapsto>
                        [''load_function.pkl'' \<mapsto> Pickled_function (Some ''loader'')]]\<rparr>
     = (Inl FileNotFoundError,
        (ModelTarget ''out/model.zip'' ''/tmp/abc'' None example_save ())
          \<lparr>mt_load_function := Some ''loader''\<rparr>,
        \<lparr>w_fs = [''/tmp/abc'' \<mapsto> [''load_function.pkl'' \<mapsto> Pickled_function (Some ''loader'')]],
         w_archives = [''out/model.zip'' \<mapsto>
                        [''load_function.pkl'' \<mapsto> Pickled_function (Some ''loader'')]]\<rparr>)"
proof -
  let ?w = "\<lparr>w_fs = Map.empty, w_archives = Map.empty\<rparr> :: (nat, string) file_content world"
  let ?w1 = "\<lparr>w_fs = [''/tmp/abc'' \<mapsto> Map.empty], w_archives = Map.empty\<rparr>
               :: (nat, string) file_content world"
  let ?ok = "ModelTarget ''out/model.zip'' ''/tmp/abc'' (Some ''loader'') example_save ()"
  let ?bad = "ModelTarget ''out/model.zip'' ''/tmp/abc'' (Some ''loader'') example_failing_save ()"
  let ?lazy = "ModelTarget ''out/model.zip'' ''/tmp/abc'' None example_save ()"
  let ?packed = "[''load_function.pkl'' \<mapsto> Pickled_function (Some ''loader'')]
                 :: (nat, string) file_content dir"
  let ?v = "\<lparr>w_fs = Map.empty, w_archives = [''out/model.zip'' \<mapsto> ?packed]\<rparr>"
  let ?v1 = "\<lparr>w_fs = [''/tmp/abc'' \<mapsto> ?packed], w_archives = [''out/model.zip'' \<mapsto> ?packed]\<rparr>"
  have tmp: "dir_key (mt_temporary_directory ?ok) = ''/tmp/abc''"
    by (simp add: ModelTarget_def dir_key_tmp)
  have ok: "fst (mt_dump example_nested ?ok 7 None None None ?w) = Inr ()"
    by (simp add: example_dump)
  have mk: "make_temporary_directory ?bad ?w = (Inr (), ?w1)"
    by (simp add: make_temporary_directory_def ModelTarget_def makedirs_empty dir_key_tmp)
  have sv: "mt_save_function ?bad 7 (model_path ?bad) ?w1 = (Inl (Raised ''disk full''), ?w1)"
    by (simp add: ModelTarget_def example_failing_save_def)
  have un: "unpack_archive (mt_zip_client ?lazy) ?v = (Inr (), ?v1)"
    by (simp add: ModelTarget_def make_zip_client_def dir_key_tmp)
  have nb: "\<forall>g. mt_load_function ?lazy = Some g \<longrightarrow> \<not> truthy example_nested g"
    by (simp add: ModelTarget_def)
  have nl: "nested_load example_nested (load_function_path ?lazy) ?v1 = (Inr (Some ''loader''), ?v1)"
    by (simp add: example_nested_def spec_nested_load_def load_function_path_def ModelTarget_def
        read_pickle_single dir_key_tmp)
  have cl: "call_load_function example_nested ''loader'' (model_path ?lazy) ?v1
            = (Inl FileNotFoundError, ?v1)"
    by (simp add: example_nested_def example_call_def model_path_def ModelTarget_def
        read_pickle_single dir_key_tmp)
  note T1 = mt_scratch_cleanup [of example_nested ?ok 7 None None None ?w]
  note T2 = mt_scratch_cleanup [of example_nested ?bad 7 None None None ?w]
  note T3 = mt_scratch_cleanup [of example_nested ?lazy 7 None None None ?v]
  from T1 [THEN conjunct1, rule_format, OF ok]
  have one: "w_fs (snd (mt_dump example_nested ?ok 7 None None None ?w)) ''/tmp/abc'' = None"
    unfolding tmp .
  from T2 [THEN conjunct2, THEN conjunct2, THEN conjunct1, rule_format, OF mk sv]
  have two: "mt_dump example_nested ?bad 7 None None None ?w = (Inl (Raised ''disk full''), ?w1)" .
  from T3 [THEN conjunct2, THEN conjunct2, THEN conjunct2, THEN conjunct2, THEN conjunct2,
      THEN conjunct2, THEN conjunct2, THEN conjunct2, THEN conjunct2, rule_format,
      OF un _ nl cl] nb
  have three: "mt_load example_nested ?lazy ?v
               = (Inl FileNotFoundError, ?lazy\<lparr>mt_load_function := Some ''loader''\<rparr>, ?v1)"
    by blast
  from one two three show ?thesis by blast
qed

theorem mt_dump_failure_keeps_scratch:
  "fst (mt_dump example_nested
       (ModelTarget ''out/model.zip'' ''/tmp/abc'' (Some ''loader'') example_failing_save ())
       7 None None None \<lparr>w_fs = Map.empty, w_archives = Map.empty\<rparr>) = Inl (Raised ''disk full'')
   \<and> w_fs (snd (mt_dump example_nested
       (ModelTarget ''out/model.zip'' ''/tmp/abc'' (Some ''loader'') example_failing_save ())
       7 None None None \<lparr>w_fs = Map.empty, w_archives = Map.empty\<rparr>)) ''/tmp/abc'' = Some Map.empty"
  by (simp add: mt_dump_def ModelTarget_def make_temporary_directory_def makedirs_empty dir_key_tmp
      example_failing_save_def)

section \<open>The reconstruction function of a target\<close>

lemma mt_load_bound_frame:
  assumes f: "mt_load_function t = Some f" and tr: "truthy env f"
  shows "fst (snd (mt_load env t w)) = t
         \<and> mt_load (env\<lparr>nested_load := other\<rparr>) t w = mt_load env t w"
proof -
  have tr': "truthy (env\<lparr>nested_load := other\<rparr>) f" using tr by simp
  have "mt_load (env\<lparr>nested_load := other\<rparr>) t w = mt_load env t w"
    unfolding mt_load_bound [OF f tr, of w] mt_load_bound [OF f tr', of w]
    by (simp cong: sum.case_cong prod.case_cong)
  moreover have "fst (snd (mt_load env t w)) = t"
    unfolding mt_load_bound [OF f tr, of w] by (simp split: prod.splits sum.splits)
  ultimately show ?thesis by blast
qed

text \<open>
  C5 (as amended): \<open>_load\<close> changes no field of the target but \<open>_load_function\<close>. A
  target that holds a reconstruction function which Python counts as true is left as it
  was; its load unpacks the archive, calls that function on the model file and removes the
  scratch directory, and does not read the persisted function at all. A target without
  such a function stores what the nested load returned in \<open>_load_function\<close>; every load
  of the target it has become uses the stored function, unpacking the archive and reading
  the model file again, and does not read the persisted function again.
\<close>

theorem mt_load_function_binding:
  "(\<forall>f. mt_load_function t = Some f \<longrightarrow> truthy env f
        \<longrightarrow> fst (snd (mt_load env t w)) = t
            \<and> mt_load (env\<lparr>nested_load := other\<rparr>) t w = mt_load env t w
            \<and> mt_load env t w
                = (case unpack_archive (mt_zip_client t) w of
                     (Inl e, w1) \<Rightarrow> (Inl e, t, w1)
                   | (Inr u, w1) \<Rightarrow>
                       (case call_load_function env f (model_path t) w1 of
                          (Inl e, w3) \<Rightarrow> (Inl e, t, w3)
                        | (Inr model, w3) \<Rightarrow>
                            (case remove_temporary_directory t w3 of
                               (Inl e, w4) \<Rightarrow> (Inl e, t, w4)
                             | (Inr u', w4) \<Rightarrow> (Inr model, t, w4)))))
   \<and> (\<forall>w1 lf w2. (\<forall>g. mt_load_function t = Some g \<longrightarrow> \<not> truthy env g)
        \<longrightarrow> unpack_archive (mt_zip_client t) w = (Inr (), w1)
        \<longrightarrow> nested_load env (load_function_path t) w1 = (Inr lf, w2)
        \<longrightarrow> fst (snd (mt_load env t w)) = t\<lparr>mt_load_function := lf\<rparr>)
   \<and> (fst (snd (mt_load env t w)))\<lparr>mt_load_function := mt_load_function t\<rparr> = t
   \<and> (\<forall>w1 f w2 w'. (\<forall>g. mt_load_function t = Some g \<longrightarrow> \<not> truthy env g)
        \<longrightarrow> unpack_archive (mt_zip_client t) w = (Inr (), w1)
        \<longrightarrow> nested_load env (load_function_path t) w1 = (Inr (Some f), w2)
        \<longrightarrow> truthy env f
        \<longrightarrow> mt_load_function (fst (snd (mt_load env t w))) = Some f
            \<and> fst (snd (mt_load env (fst (snd (mt_load env t w))) w')) = fst (snd (mt_load env t w))
            \<and> mt_load (env\<lparr>nested_load := other\<rparr>) (fst (snd (mt_load env t w))) w'
                = mt_load env (fst (snd (mt_load env t w))) w'
            \<and> mt_load env (fst (snd (mt_load env t w))) w'
                = (case unpack_archive (mt_zip_client t) w' of
                     (Inl e, w1) \<Rightarrow> (Inl e, fst (snd (mt_load env t w)), w1)
                   | (Inr u, w1) \<Rightarrow>
                       (case call_load_function env f (model_path t) w1 of
                          (Inl e, w3) \<Rightarrow> (Inl e, fst (snd (mt_load env t w)), w3)
                        | (Inr model, w3) \<Rightarrow>
                            (case remove_temporary_directory t w3 of
                               (Inl e, w4) \<Rightarrow> (Inl e, fst (snd (mt_load env t w)), w4)
                             | (Inr u', w4) \<Rightarrow> (Inr model, fst (snd (mt_load env t w)), w4)))))"
proof -
  have b: "fst (snd (mt_load env t w)) = t\<lparr>mt_load_function := lf\<rparr>"
    if "\<forall>g. mt_load_function t = Some g \<longrightarrow> \<not> truthy env g"
      "unpack_archive (mt_zip_client t) w = (Inr (), w1)"
      "nested_load env (load_function_path t) w1 = (Inr lf, w2)" for w1 lf w2
    using that(3) unfolding mt_load_unbound [OF that(1,2)]
    by (simp split: prod.splits sum.splits option.splits)
  have c: "(fst (snd (mt_load env t w)))\<lparr>mt_load_function := mt_load_function t\<rparr> = t"
    using mt_load_target [of env t w] by auto
  have again: "mt_load_function (fst (snd (mt_load env t w))) = Some f
            \<and> fst (snd (mt_load env (fst (snd (mt_load env t w))) w')) = fst (snd (mt_load env t w))
            \<and> mt_load (env\<lparr>nested_load := other\<rparr>) (fst (snd (mt_load env t w))) w'
                = mt_load env (fst (snd (mt_load env t w))) w'
            \<and> mt_load env (fst (snd (mt_load env t w))) w'
                = (case unpack_archive (mt_zip_client t) w' of
                     (Inl e, w1) \<Rightarrow> (Inl e, fst (snd (mt_load env t w)), w1)
                   | (Inr u, w1) \<Rightarrow>
                       (case call_load_function env f (model_path t) w1 of
                          (Inl e, w3) \<Rightarrow> (Inl e, fst (snd (mt_load env t w)), w3)
                        | (Inr model, w3) \<Rightarrow>
                            (case remove_temporary_directory t w3 of
                               (Inl e, w4) \<Rightarrow> (Inl e, fst (snd (mt_load env t w)), w4)
                             | (Inr u', w4) \<Rightarrow> (Inr model, fst (snd (mt_load env t w)), w4))))"
    if nb: "\<forall>g. mt_load_function t = Some g \<longrightarrow> \<not> truthy env g"
      and un: "unpack_archive (mt_zip_client t) w = (Inr (), w1)"
      and nl: "nested_load env (load_function_path t) w1 = (Inr (Some f), w2)"
      and tr: "truthy env f" for w1 f w2 w'
  proof -
    let ?t' = "t\<lparr>mt_load_function := Some f\<rparr>"
    have t': "fst (snd (mt_load env t w)) = ?t'" using b [OF nb un nl] .
    have f: "mt_load_function ?t' = Some f" by simp
    note fr = mt_load_bound_frame [OF f tr, of w' other]
    have run: "mt_load env ?t' w'
                = (case unpack_archive (mt_zip_client t) w' of
                     (Inl e, w1) \<Rightarrow> (Inl e, ?t', w1)
                   | (Inr u, w1) \<Rightarrow>
                       (case call_load_function env f (model_path t) w1 of
                          (Inl e, w3) \<Rightarrow> (Inl e, ?t', w3)
                        | (Inr model, w3) \<Rightarrow>
                            (case remove_temporary_directory t w3 of
                               (Inl e, w4) \<Rightarrow> (Inl e, ?t', w4)
                             | (Inr u', w4) \<Rightarrow> (Inr model, ?t', w4))))"
      unfolding mt_load_bound [OF f tr, of w']
      by (simp add: model_path_field remove_temporary_directory_field
          cong: sum.case_cong prod.case_cong)
    show ?thesis unfolding t' using f fr run by blast
  qed
  have bound: "fst (snd (mt_load env t w)) = t
            \<and> mt_load (env\<lparr>nested_load := other\<rparr>) t w = mt_load env t w
            \<and> mt_load env t w
                = (case unpack_archive (mt_zip_client t) w of
                     (Inl e, w1) \<Rightarrow> (Inl e, t, w1)
                   | (Inr u, w1) \<Rightarrow>
                       (case call_load_function env f (model_path t) w1 of
                          (Inl e, w3) \<Rightarrow> (Inl e, t, w3)
                        | (Inr model, w3) \<Rightarrow>
                            (case remove_temporary_directory t w3 of
                               (Inl e, w4) \<Rightarrow> (Inl e, t, w4)
                             | (Inr u', w4) \<Rightarrow> (Inr model, t, w4))))"
    if f: "mt_load_function t = Some f" and tr: "truthy env f" for f
    using mt_load_bound_frame [OF f tr, of w other] mt_load_bound [OF f tr, of w] by blast
  show ?thesis
  proof (intro conjI allI impI)
    show "(fst (snd (mt_load env t w)))\<lparr>mt_load_function := mt_load_function t\<rparr> = t" by (rule c)
  qed (use bound b again in blast)+
qed

theorem mt_load_caches_function:
  "mt_load_function (ModelTarget ''out/model.zip'' ''/tmp/abc'' None example_save ()) = None
   \<and> fst (mt_load example_nested (ModelTarget ''out/model.zip'' ''/tmp/abc'' None example_save ())
       \<lparr>w_fs = Map.empty,
        w_archives = [''out/model.zip'' \<mapsto> [''model.pkl'' \<mapsto> Payload 7,
                        ''load_function.pkl'' \<mapsto> Pickled_function (Some ''loader'')]]\<rparr>) = Inr 7
   \<and> mt_load_function (fst (snd
       (mt_load example_nested (ModelTarget ''out/model.zip'' ''/tmp/abc'' None example_save ())
       \<lparr>w_fs = Map.empty,
        w_archives = [''out/model.zip'' \<mapsto> [''model.pkl'' \<mapsto> Payload 7,
                        ''load_function.pkl'' \<mapsto> Pickled_function (Some ''loader'')]]\<rparr>)))
     = Some ''loader''"
  by (simp add: example_load) (simp add: ModelTarget_def)

theorem mt_load_function_binding_witness:
  "fst (snd (mt_load example_nested (ModelTarget ''out/model.zip'' ''/tmp/abc'' None example_save ())
       \<lparr>w_fs = Map.empty,
        w_archives = [''out/model.zip'' \<mapsto> [''model.pkl'' \<mapsto> Payload 7,
                        ''load_function.pkl'' \<mapsto> Pickled_function (Some ''loader'')]]\<rparr>))
     = (ModelTarget ''out/model.zip'' ''/tmp/abc'' None example_save ())\<lparr>mt_load_function := Some ''loader''\<rparr>
   \<and> fst (snd (mt_load example_nested (ModelTarget ''out/model.zip'' ''/tmp/abc'' (Some ''loader'') example_save ())
       \<lparr>w_fs = Map.empty,
        w_archives = [''out/model.zip'' \<mapsto> [''model.pkl'' \<mapsto> Payload 7,
                        ''load_function.pkl'' \<mapsto> Pickled_function (Some ''loader'')]]\<rparr>))
     = (ModelTarget ''out/model.zip'' ''/tmp/abc'' (Some ''loader'') example_save ())
   \<and> mt_load (example_nested\<lparr>nested_load := (\<lambda>path w. (Inl FileNotFoundError, w))\<rparr>)
       (ModelTarget ''out/model.zip'' ''/tmp/abc'' (Some ''loader'') example_save ())
       \<lparr>w_fs = Map.empty,
        w_archives = [''out/model.zip'' \<mapsto> [''model.pkl'' \<mapsto> Payload 7,
                        ''load_function.pkl'' \<mapsto> Pickled_function (Some ''loader'')]]\<rparr>
     = mt_load example_nested (ModelTarget ''out/model.zip'' ''/tmp/abc'' (Some ''loader'') example_save ())
       \<lparr>w_fs = Map.empty,
        w_archives = [''out/model.zip'' \<mapsto> [''model.pkl'' \<mapsto> Payload 7,
                        ''load_function.pkl'' \<mapsto> Pickled_function (Some ''loader'')]]\<rparr>
   \<and> mt_load (example_nested\<lparr>nested_load := (\<lambda>path w. (Inl FileNotFoundError, w))\<rparr>)
       (fst (snd (mt_load example_nested
          (ModelTarget ''out/model.zip'' ''/tmp/abc'' None example_save ())
          \<lparr>w_fs = Map.empty,
           w_archives = [''out/model.zip'' \<mapsto> [''model.pkl'' \<mapsto> Payload 7,
                           ''load_function.pkl'' \<mapsto> Pickled_function (Some ''loader'')]]\<rparr>)))
       \<lparr>w_fs = Map.empty,
        w_archives = [''out/model.zip'' \<mapsto> [''model.pkl'' \<mapsto> Payload 8]]\<rparr>
     = mt_load example_nested
       (fst (snd (mt_load example_nested
          (ModelTarget ''out/model.zip'' ''/tmp/abc'' None example_save ())
          \<lparr>w_fs = Map.empty,
           w_archives = [''out/model.zip'' \<mapsto> [''model.pkl'' \<mapsto> Payload 7,
                           ''load_function.pkl'' \<mapsto> Pickled_function (Some ''loader'')]]\<rparr>)))
       \<lparr>w_fs = Map.empty,
        w_archives = [''out/model.zip'' \<mapsto> [''model.pkl'' \<mapsto> Payload 8]]\<rparr>"
proof -
  let ?packed = "[''model.pkl'' \<mapsto> Payload 7,
                  ''load_function.pkl'' \<mapsto> Pickled_function (Some ''loader'')]
                 :: (nat, string) file_content dir"
  let ?w = "\<lparr>w_fs = Map.empty, w_archives = [''out/model.zip'' \<mapsto> ?packed]\<rparr>"
  let ?w1 = "\<lparr>w_fs = [''/tmp/abc'' \<mapsto> ?packed], w_archives = [''out/model.zip'' \<mapsto> ?packed]\<rparr>"
  let ?w' = "\<lparr>w_fs = Map.empty,
              w_archives = [''out/model.zip'' \<mapsto> [''model.pkl'' \<mapsto> Payload 8]]\<rparr>
             :: (nat, string) file_content world"
  let ?t0 = "(ModelTarget ''out/model.zip'' ''/tmp/abc'' None example_save ())"
  let ?t1 = "(ModelTarget ''out/model.zip'' ''/tmp/abc'' (Some ''loader'') example_save ())"
  let ?other = "\<lambda>(path :: string) (w :: (nat, string) file_content world).
                  (Inl FileNotFoundError :: string option result, w)"
  have nb: "\<forall>g. mt_load_function ?t0 = Some g \<longrightarrow> \<not> truthy example_nested g"
    by (simp add: ModelTarget_def)
  have some: "mt_load_function ?t1 = Some ''loader''" by (simp add: ModelTarget_def)
  have tr: "truthy example_nested ''loader''" by (simp add: example_nested_def)
  have un: "unpack_archive (mt_zip_client ?t0) ?w = (Inr (), ?w1)"
    by (simp add: ModelTarget_def make_zip_client_def dir_key_tmp)
  have nl: "nested_load example_nested (load_function_path ?t0) ?w1 = (Inr (Some ''loader''), ?w1)"
    by (simp add: example_nested_def spec_nested_load_def load_function_path_def ModelTarget_def
        read_pickle_single dir_key_tmp)
  note T0 = mt_load_function_binding [where t = ?t0 and env = example_nested and w = ?w
      and other = ?other]
  note T1 = mt_load_function_binding [where t = ?t1 and env = example_nested and w = ?w
      and other = ?other]
  from T0 [THEN conjunct2, THEN conjunct1, rule_format, OF _ un nl] nb
  have one: "fst (snd (mt_load example_nested ?t0 ?w)) = ?t0\<lparr>mt_load_function := Some ''loader''\<rparr>"
    by blast
  from T1 [THEN conjunct1, rule_format, OF some tr]
  have two: "fst (snd (mt_load example_nested ?t1 ?w)) = ?t1
             \<and> mt_load (example_nested\<lparr>nested_load := ?other\<rparr>) ?t1 ?w
                 = mt_load example_nested ?t1 ?w"
    by blast
  from T0 [THEN conjunct2, THEN conjunct2, THEN conjunct2, rule_format, OF _ un nl tr, of ?w'] nb
  have three: "mt_load (example_nested\<lparr>nested_load := ?other\<rparr>)
                  (fst (snd (mt_load example_nested ?t0 ?w))) ?w'
               = mt_load example_nested (fst (snd (mt_load example_nested ?t0 ?w))) ?w'"
    by blast
  from one two three show ?thesis by blast
qed

section \<open>What the archive holds\<close>




end
